theory Spec2Isabelle
  imports Main "HOL-Library.Word" "HOL-Library.Sublist"
begin

text \<open>
  A Cloudflare worker that reads a gzip-compressed NDJSON object from R2, decodes it line
  by line, groups the records into batches of about one mebibyte and posts each batch to
  BigQuery's \<open>insertAll\<close>.  The sources hold three versions of the worker, all modelled
  here:
  \<^item> worker.ts with per-row counts (\<open>handleBigQueryResponse\<close>, \<open>message.ack()\<close>): the
    names without suffix;
  \<^item> worker.ts with a list of errors: the names ending in \<open>_v1\<close>;
  \<^item> worker.js, with its own decoder \<open>streamNdjsonObjects\<close>: the names ending in \<open>_js\<close>
    where it differs from the second.
  The decoder of the two worker.ts is \<open>ndjsonStream\<close> (ndjsonstream.ts).

  Counters and sizes are natural numbers (a JavaScript number counts exactly up to
  \<open>2^53\<close>, far beyond any object).  Console output is modelled only for
  \<open>handleBigQueryResponse\<close>, where it carries the line of the first failed row.
\<close>

section \<open>JavaScript strings\<close>

text \<open>
  A JavaScript string is a sequence of 16-bit code units; \<open>s.length\<close> counts code
  units.  A chunk read from the object body is a sequence of bytes.
\<close>

type_synonym code_unit = "16 word"
type_synonym jsstring = "code_unit list"
type_synonym byte = "8 word"

definition js :: "string \<Rightarrow> jsstring" where
  "js s = map (\<lambda>c. of_nat (of_char c)) s"

text \<open>
  \<open>buffer.split('\n')\<close>: the pieces between occurrences of U+000A.  The result is never
  empty: a string without a line feed is returned whole, and the empty string gives
  \<open>['']\<close>.
\<close>

fun split_nl :: "jsstring \<Rightarrow> jsstring list" where
  "split_nl [] = [[]]"
| "split_nl (c # cs) =
     (if c = 10 then [] # split_nl cs
      else (c # hd (split_nl cs)) # tl (split_nl cs))"

text \<open>
  \<open>String.prototype.trim\<close> removes leading and trailing WhiteSpace and LineTerminator
  code units (ECMAScript: TAB, VT, FF, SP, NBSP, ZWNBSP, the Zs category, LF, CR, LS, PS).
\<close>

definition is_whitespace :: "code_unit \<Rightarrow> bool" where
  "is_whitespace c \<longleftrightarrow>
     c = 0x9 \<or> c = 0xA \<or> c = 0xB \<or> c = 0xC \<or> c = 0xD \<or> c = 0x20 \<or> c = 0xA0
     \<or> c = 0x1680 \<or> (0x2000 \<le> c \<and> c \<le> 0x200A) \<or> c = 0x2028 \<or> c = 0x2029
     \<or> c = 0x202F \<or> c = 0x205F \<or> c = 0x3000 \<or> c = 0xFEFF"

definition trim :: "jsstring \<Rightarrow> jsstring" where
  "trim s = rev (dropWhile is_whitespace (rev (dropWhile is_whitespace s)))"

text \<open>A string is truthy when it is not empty: \<open>if (line.trim())\<close>.\<close>

definition truthy :: "jsstring \<Rightarrow> bool" where
  "truthy s \<longleftrightarrow> s \<noteq> []"

section \<open>JSON values and the platform\<close>

text \<open>
  The value \<open>JSON.parse\<close> returns.  An object keeps its properties in insertion order.
  Numbers are IEEE doubles, which are left abstract: the code never inspects one.
\<close>

typedecl js_number

datatype json =
    JNull
  | JBool bool
  | JNumber js_number
  | JString jsstring
  | JArray "json list"
  | JObject "(jsstring \<times> json) list"

text \<open>
  What the runtime provides and the repository only calls:
  \<^item> \<open>TextDecoder\<close> in streaming mode is a byte-wise transducer with an internal state
    (the bytes of an unfinished multi-byte character, whether a byte order mark was seen):
    \<open>decoder.decode(chunk, {stream: true})\<close> feeds the bytes of the chunk one by one;
  \<^item> \<open>JSON.parse\<close> returns a value or throws a SyntaxError with a message;
  \<^item> \<open>JSON.stringify\<close> serialises a value;
  \<^item> \<open>new Date().toISOString()\<close> reads the clock (indexed here by the line being
    decoded, since it is called at most once per line);
  \<^item> the message of the TypeError the engine throws for a given value.
\<close>

record 'd platform =
  decoder_init :: 'd
  decoder_step :: "'d \<Rightarrow> byte \<Rightarrow> jsstring \<times> 'd"
  JSON_parse :: "jsstring \<Rightarrow> jsstring + json"
  JSON_stringify :: "json \<Rightarrow> jsstring"
  toISOString :: "nat \<Rightarrow> jsstring"
  TypeError_message :: "json \<Rightarrow> jsstring"

fun decode :: "'d platform \<Rightarrow> 'd \<Rightarrow> byte list \<Rightarrow> jsstring \<times> 'd" where
  "decode P d [] = ([], d)"
| "decode P d (b # bs) =
     (case decoder_step P d b of (s, d') \<Rightarrow>
        (case decode P d' bs of (t, d'') \<Rightarrow> (s @ t, d'')))"

section \<open>The decoders\<close>

text \<open>
  \<open>StreamItem | ErrorItem\<close>: the constructor is the \<open>error: true\<close> tag, and both
  alternatives carry \<open>lineNumber\<close>.
\<close>

datatype item =
    StreamItem (json: json) (bytes: nat) (lineNumber: nat)
  | ErrorItem (line: jsstring) (lineNumber: nat) (errorMessage: jsstring)

text \<open>
  \<open>ndjsonStream\<close> (ndjsonstream.ts) and \<open>streamNdjsonObjects\<close> (worker.js) are the same
  loop around two different \<open>try\<close> blocks.  The loop is modelled once, with the
  \<open>try\<close> block as the argument \<open>h\<close>: it takes the line and the value of the counter
  and returns the item that is yielded.

  \<open>for (const line of lines) { lineNumber++; if (line.trim()) { try ... } }\<close>: the items
  yielded and the counter afterwards.
\<close>

fun for_lines :: "(jsstring \<Rightarrow> nat \<Rightarrow> item) \<Rightarrow> jsstring list \<Rightarrow> nat \<Rightarrow> item list \<times> nat" where
  "for_lines h [] n = ([], n)"
| "for_lines h (l # ls) n =
     (let n' = n + 1;
          ys = (if truthy (trim l) then [h l n'] else [])
      in case for_lines h ls n' of (zs, m) \<Rightarrow> (ys @ zs, m))"

record 'd decoder_state =
  decoder :: 'd
  buffer :: jsstring
  lineNumber_var :: nat

text \<open>
  \<open>lines.pop() || ''\<close>: the last element, the empty string if there is none
  (worker.js has \<open>lines.pop()\<close> alone; \<open>lines\<close> is never empty there either).
\<close>

definition pop_or_empty :: "jsstring list \<Rightarrow> jsstring" where
  "pop_or_empty ls = (case ls of [] \<Rightarrow> [] | _ # _ \<Rightarrow> last ls)"

text \<open>
  \<open>while (true) { read; if (done) break; ... }\<close> over the chunks of the body, a finite
  list: the items yielded and the state when the reader reports \<open>done\<close>.
\<close>

fun read_loop ::
  "'d platform \<Rightarrow> (jsstring \<Rightarrow> nat \<Rightarrow> item) \<Rightarrow> byte list list \<Rightarrow> 'd decoder_state
     \<Rightarrow> item list \<times> 'd decoder_state" where
  "read_loop P h [] st = ([], st)"
| "read_loop P h (chunk # chunks) st =
     (case decode P (decoder st) chunk of (text, d') \<Rightarrow>
        (let buf = buffer st @ text;
             lines = split_nl buf;
             buf' = pop_or_empty lines
         in case for_lines h (butlast lines) (lineNumber_var st) of (ys, n') \<Rightarrow>
              (case read_loop P h chunks \<lparr>decoder = d', buffer = buf', lineNumber_var = n'\<rparr> of
                 (zs, st') \<Rightarrow> (ys @ zs, st'))))"

text \<open>
  The whole generator: the loop, then \<open>if (buffer.trim()) { lineNumber++; try ... }\<close>.
  The result is the sequence of items yielded and the generator's variables at the end.
\<close>

definition decoder_run ::
  "'d platform \<Rightarrow> (jsstring \<Rightarrow> nat \<Rightarrow> item) \<Rightarrow> byte list list
     \<Rightarrow> item list \<times> 'd decoder_state" where
  "decoder_run P h chunks =
     (case read_loop P h chunks \<lparr>decoder = decoder_init P, buffer = [], lineNumber_var = 0\<rparr> of
        (ys, st) \<Rightarrow>
          if truthy (trim (buffer st))
          then (ys @ [h (buffer st) (lineNumber_var st + 1)],
                st\<lparr>lineNumber_var := lineNumber_var st + 1\<rparr>)
          else (ys, st))"

subsection \<open>\<open>ndjsonStream\<close> (ndjsonstream.ts)\<close>

text \<open>
  \<open>try { let json = JSON.parse(line); yield { json, bytes: JSON.stringify(json).length,
  lineNumber } } catch (error) { yield { error: true, line, lineNumber, errorMessage } }\<close>
\<close>

definition parse_line :: "'d platform \<Rightarrow> jsstring \<Rightarrow> nat \<Rightarrow> item" where
  "parse_line P l n =
     (case JSON_parse P l of
        Inr j \<Rightarrow> StreamItem j (length (JSON_stringify P j)) n
      | Inl msg \<Rightarrow> ErrorItem l n msg)"

definition ndjsonStream_run ::
  "'d platform \<Rightarrow> byte list list \<Rightarrow> item list \<times> 'd decoder_state" where
  "ndjsonStream_run P chunks = decoder_run P (parse_line P) chunks"

definition ndjsonStream :: "'d platform \<Rightarrow> byte list list \<Rightarrow> item list" where
  "ndjsonStream P chunks = fst (ndjsonStream_run P chunks)"

subsection \<open>\<open>streamNdjsonObjects\<close> (worker.js)\<close>

definition hasOwnProperty :: "(jsstring \<times> json) list \<Rightarrow> jsstring \<Rightarrow> bool" where
  "hasOwnProperty props k \<longleftrightarrow> k \<in> set (map fst props)"

text \<open>
  \<open>if (!json.hasOwnProperty('generated_at')) { json.generated_at = new Date().toISOString() }\<close>
  on the value \<open>JSON.parse\<close> returned, inside the \<open>try\<close> block.  worker.js is a module,
  so it runs in strict mode.
  \<^item> An object: \<open>json.hasOwnProperty\<close> is looked up on the object first.  \<open>JSON.parse\<close>
    creates every member as an own property, so an object with a member named
    \<open>hasOwnProperty\<close> shadows the inherited method with a JSON value, and calling it throws
    a TypeError.  Otherwise the inherited method answers, and a missing property is
    appended after the existing ones.
  \<^item> An array: the inherited method answers false and the assignment creates a named
    property on the array, which \<open>JSON.stringify\<close> does not serialise; the array is
    modelled as unchanged.
  \<^item> \<open>null\<close>: reading a property of \<open>null\<close> throws a TypeError.
  \<^item> A boolean, number or string: the method answers false and the assignment to a
    property of a primitive throws a TypeError in strict mode.
\<close>

definition add_generated_at :: "'d platform \<Rightarrow> nat \<Rightarrow> json \<Rightarrow> jsstring + json" where
  "add_generated_at P n j =
     (case j of
        JObject props \<Rightarrow>
          if hasOwnProperty props (js ''hasOwnProperty'') then Inl (TypeError_message P j)
          else if \<not> hasOwnProperty props (js ''generated_at'')
          then Inr (JObject (props @ [(js ''generated_at'', JString (toISOString P n))]))
          else Inr j
      | JArray xs \<Rightarrow> Inr j
      | _ \<Rightarrow> Inl (TypeError_message P j))"

text \<open>
  The \<open>try\<close> block of worker.js (lines 21-40 and 47-65): a TypeError thrown while adding
  the property is caught by the same \<open>catch\<close> as a SyntaxError of the parser.
\<close>

definition parse_line_js :: "'d platform \<Rightarrow> jsstring \<Rightarrow> nat \<Rightarrow> item" where
  "parse_line_js P l n =
     (case JSON_parse P l of
        Inl msg \<Rightarrow> ErrorItem l n msg
      | Inr j \<Rightarrow>
          (case add_generated_at P n j of
             Inl msg \<Rightarrow> ErrorItem l n msg
           | Inr j' \<Rightarrow> StreamItem j' (length (JSON_stringify P j')) n))"

definition streamNdjsonObjects :: "'d platform \<Rightarrow> byte list list \<Rightarrow> item list" where
  "streamNdjsonObjects P chunks = fst (decoder_run P (parse_line_js P) chunks)"

section \<open>The destination protocol\<close>

text \<open>\<open>interface BatchItem { json; lineNumber }\<close>\<close>

record BatchItem =
  row_json :: json
  row_lineNumber :: nat

text \<open>
  \<open>interface BigQueryResponse { insertErrors?: Array<{ index: number; errors: Array<{
  message: string }> }> }\<close>: an entry is its index and the messages of its errors.
\<close>

record insert_error =
  index :: int
  errors :: "jsstring list"

record BigQueryResponse =
  insertErrors :: "insert_error list option"

text \<open>
  What \<open>fetch\<close> resolves to: \<open>response.ok\<close>, \<open>response.status\<close>, and the body as
  \<open>response.json()\<close> reads it (\<open>None\<close> when the body is not JSON and \<open>json()\<close> rejects
  with a SyntaxError).  The destination is an oracle: the answer to the \<open>n\<close>-th request
  of a run (counted from 0) carrying the given rows.  A rejected \<open>fetch\<close> (no response at
  all) is not modelled.
\<close>

record http_response =
  ok :: bool
  status :: nat
  body :: "BigQueryResponse option"

type_synonym destination = "nat \<Rightarrow> json list \<Rightarrow> http_response"

datatype error =
    BigQueryApiError nat
  | BigQueryInsertError nat
  | TypeError
  | SyntaxError
  | InsertionErrors nat
  | FailedToInsert nat
  | ObjectNotFound jsstring
  | ObjectBodyNull

text \<open>\<open>batch.map(({ json }) => ({ json }))\<close>: the rows of the request.\<close>

definition rows :: "BatchItem list \<Rightarrow> json list" where
  "rows batch = map row_json batch"

text \<open>
  \<open>batch[i]\<close> for a number \<open>i\<close>: the element, or \<open>undefined\<close> when \<open>i\<close> is not a
  position of the array.
\<close>

definition at_index :: "'a list \<Rightarrow> int \<Rightarrow> 'a option" where
  "at_index xs i = (if 0 \<le> i \<and> i < int (length xs) then Some (xs ! nat i) else None)"

subsection \<open>\<open>sendBatchToBigQuery\<close> and \<open>handleBigQueryResponse\<close> with per-row counts (worker.ts, lines 177-198 and 257-271 of the second document)\<close>

text \<open>
  \<open>sendBatchToBigQuery\<close>: one request; a status that is not a success throws, otherwise
  the parsed body is returned.
\<close>

definition sendBatchToBigQuery ::
  "destination \<Rightarrow> nat \<Rightarrow> BatchItem list \<Rightarrow> error + BigQueryResponse" where
  "sendBatchToBigQuery dest n batch =
     (let response = dest n (rows batch)
      in if \<not> ok response then Inl (BigQueryApiError (status response))
         else (case body response of
                 None \<Rightarrow> Inl SyntaxError
               | Some b \<Rightarrow> Inr b))"

text \<open>What \<open>handleBigQueryResponse\<close> writes with \<open>console.error\<close>.\<close>

datatype log_entry =
    PartialSuccess int nat
  | FirstErrorAtLine nat jsstring
  | ProblematicObject json

record outcome =
  batchSuccessful :: int
  batchFailed :: nat

text \<open>\<open>firstError.errors[0]?.message || 'Unknown error'\<close>\<close>

definition first_message :: "jsstring list \<Rightarrow> jsstring" where
  "first_message ms =
     (case ms of
        [] \<Rightarrow> js ''Unknown error''
      | m # _ \<Rightarrow> if truthy m then m else js ''Unknown error'')"

text \<open>
  \<open>handleBigQueryResponse\<close>: \<open>batch[firstError.index].lineNumber\<close> throws a TypeError
  when \<open>batch[firstError.index]\<close> is \<open>undefined\<close>; nothing has been logged by then.
\<close>

definition handleBigQueryResponse ::
  "BigQueryResponse \<Rightarrow> BatchItem list \<Rightarrow> error + (log_entry list \<times> outcome)" where
  "handleBigQueryResponse response batch =
     (let failedCount = (case insertErrors response of None \<Rightarrow> 0 | Some es \<Rightarrow> length es);
          successCount = int (length batch) - int failedCount;
          result = \<lparr>batchSuccessful = successCount, batchFailed = failedCount\<rparr>
      in if failedCount > 0
         then (let firstError = hd (the (insertErrors response))
               in case at_index batch (index firstError) of
                    None \<Rightarrow> Inl TypeError
                  | Some b \<Rightarrow>
                      Inr ([PartialSuccess successCount failedCount,
                            FirstErrorAtLine (row_lineNumber b) (first_message (errors firstError)),
                            ProblematicObject (row_json b)],
                           result))
         else Inr ([], result))"

subsection \<open>\<open>sendBatchToBigQuery\<close> of the error-list version (worker.ts, lines 19-48 of the first document)\<close>

text \<open>
  \<open>sendBatchToBigQuery\<close> returns nothing or throws: \<open>response.json()\<close> is read before the
  status is looked at, and any \<open>insertErrors\<close> make the whole call throw.
\<close>

definition sendBatchToBigQuery_v1 ::
  "destination \<Rightarrow> nat \<Rightarrow> BatchItem list \<Rightarrow> error option" where
  "sendBatchToBigQuery_v1 dest n batch =
     (let response = dest n (rows batch)
      in case body response of
           None \<Rightarrow> Some SyntaxError
         | Some responseBody \<Rightarrow>
             if \<not> ok response then Some (BigQueryApiError (status response))
             else (case insertErrors responseBody of
                     None \<Rightarrow> None
                   | Some [] \<Rightarrow> None
                   | Some (firstError # _) \<Rightarrow>
                       (case at_index batch (index firstError) of
                          None \<Rightarrow> Some TypeError
                        | Some b \<Rightarrow> Some (BigQueryInsertError (row_lineNumber b)))))"

text \<open>
  worker.js, lines 69-105: the same body inside \<open>try { ... } catch (error) { console.error;
  throw error }\<close>, which rethrows what it caught.
\<close>

definition sendBatchToBigQuery_js ::
  "destination \<Rightarrow> nat \<Rightarrow> BatchItem list \<Rightarrow> error option" where
  "sendBatchToBigQuery_js dest n batch =
     (case sendBatchToBigQuery_v1 dest n batch of
        None \<Rightarrow> None
      | Some e \<Rightarrow> Some e)"

subsection \<open>\<open>insertIntoBq\<close> with per-row counts (worker.ts, lines 200-255 of the second document)\<close>

text \<open>
  The variables of \<open>insertIntoBq\<close> that all versions share, and \<open>sent\<close>: the batches
  posted so far, in order (what the destination has seen).
\<close>

record run_base =
  batch :: "BatchItem list"
  batchSizeBytes :: nat
  totalBytes :: nat
  totalRecords :: nat
  sent :: "BatchItem list list"

record run_state = run_base +
  successfulInserts :: int
  failedInserts :: nat
  skippedRecords :: nat

definition maxBatchSizeBytes :: nat where
  "maxBatchSizeBytes = 1024 * 1024"

text \<open>
  \<open>const result = await sendBatchToBigQuery(url, jwt, batch); const { batchSuccessful,
  batchFailed } = handleBigQueryResponse(result, batch); successfulInserts += ...;
  failedInserts += ...\<close>: there is no \<open>try\<close> around it, so an error leaves
  \<open>insertIntoBq\<close>; the state at that moment is kept with the error.
\<close>

definition dispatch :: "destination \<Rightarrow> run_state \<Rightarrow> (error \<times> run_state) + run_state" where
  "dispatch dest st =
     (let st1 = st\<lparr>sent := sent st @ [batch st]\<rparr>
      in case sendBatchToBigQuery dest (length (sent st)) (batch st) of
           Inl e \<Rightarrow> Inl (e, st1)
         | Inr result \<Rightarrow>
             (case handleBigQueryResponse result (batch st) of
                Inl e \<Rightarrow> Inl (e, st1)
              | Inr (logs, out) \<Rightarrow>
                  Inr (st1\<lparr>successfulInserts := successfulInserts st + batchSuccessful out,
                            failedInserts := failedInserts st + batchFailed out\<rparr>)))"

text \<open>
  The body of \<open>for await (const item of dataStream)\<close>, lines 217-241, with the threshold
  \<open>m\<close> in place of the constant.
\<close>

definition step ::
  "'d platform \<Rightarrow> destination \<Rightarrow> nat \<Rightarrow> item \<Rightarrow> run_state \<Rightarrow> (error \<times> run_state) + run_state" where
  "step P dest m it st =
     (case it of
        ErrorItem l n msg \<Rightarrow> Inr (st\<lparr>skippedRecords := skippedRecords st + 1\<rparr>)
      | StreamItem j b n \<Rightarrow>
          (let st1 = st\<lparr>totalBytes := totalBytes st + b, totalRecords := totalRecords st + 1\<rparr>;
               recordSizeBytes = length (JSON_stringify P j)
           in case (if batchSizeBytes st1 + recordSizeBytes > m \<and> length (batch st1) > 0
                    then (case dispatch dest st1 of
                            Inl e \<Rightarrow> Inl e
                          | Inr st2 \<Rightarrow> Inr (st2\<lparr>batch := [], batchSizeBytes := 0\<rparr>))
                    else Inr st1) of
                Inl e \<Rightarrow> Inl e
              | Inr st3 \<Rightarrow>
                  Inr (st3\<lparr>batch := batch st3 @ [\<lparr>row_json = j, row_lineNumber = n\<rparr>],
                            batchSizeBytes := batchSizeBytes st3 + recordSizeBytes\<rparr>)))"

fun for_items ::
  "'d platform \<Rightarrow> destination \<Rightarrow> nat \<Rightarrow> item list \<Rightarrow> run_state \<Rightarrow> (error \<times> run_state) + run_state" where
  "for_items P dest m [] st = Inr st"
| "for_items P dest m (it # its) st =
     (case step P dest m it st of
        Inl e \<Rightarrow> Inl e
      | Inr st' \<Rightarrow> for_items P dest m its st')"

definition initial_state :: run_state where
  "initial_state =
     \<lparr>batch = [], batchSizeBytes = 0, totalBytes = 0, totalRecords = 0, sent = [],
      successfulInserts = 0, failedInserts = 0, skippedRecords = 0\<rparr>"

text \<open>
  \<open>insertIntoBq\<close> from the loop on (the token is obtained before the first item is
  read): the loop, the last batch, then \<open>if (failedInserts > 0) throw\<close>.  \<open>Inr\<close> is the
  normal return, with the totals of the summary line.
\<close>

definition insertIntoBq_with ::
  "nat \<Rightarrow> 'd platform \<Rightarrow> destination \<Rightarrow> item list \<Rightarrow> (error \<times> run_state) + run_state" where
  "insertIntoBq_with m P dest items =
     (case for_items P dest m items initial_state of
        Inl e \<Rightarrow> Inl e
      | Inr st \<Rightarrow>
          (case (if length (batch st) > 0 then dispatch dest st else Inr st) of
             Inl e \<Rightarrow> Inl e
           | Inr st' \<Rightarrow>
               if failedInserts st' > 0 then Inl (FailedToInsert (failedInserts st'), st')
               else Inr st'))"

definition insertIntoBq ::
  "'d platform \<Rightarrow> destination \<Rightarrow> item list \<Rightarrow> (error \<times> run_state) + run_state" where
  "insertIntoBq P dest items = insertIntoBq_with maxBatchSizeBytes P dest items"

subsection \<open>\<open>insertIntoBq\<close> with an error list (worker.ts, lines 50-106 of the first document)\<close>

record run_state_v1 = run_base +
  errors_var :: "error list"

text \<open>\<open>try { await sendBatchToBigQuery(url, jwt, batch) } catch (error) { errors.push(error) }\<close>\<close>

definition dispatch_v1 :: "destination \<Rightarrow> run_state_v1 \<Rightarrow> run_state_v1" where
  "dispatch_v1 dest st =
     (let st1 = st\<lparr>sent := sent st @ [batch st]\<rparr>
      in case sendBatchToBigQuery_v1 dest (length (sent st)) (batch st) of
           None \<Rightarrow> st1
         | Some e \<Rightarrow> st1\<lparr>errors_var := errors_var st1 @ [e]\<rparr>)"

definition step_v1 :: "'d platform \<Rightarrow> destination \<Rightarrow> nat \<Rightarrow> item \<Rightarrow> run_state_v1 \<Rightarrow> run_state_v1" where
  "step_v1 P dest m it st =
     (case it of
        ErrorItem l n msg \<Rightarrow> st
      | StreamItem j b n \<Rightarrow>
          (let st1 = st\<lparr>totalBytes := totalBytes st + b, totalRecords := totalRecords st + 1\<rparr>;
               recordSizeBytes = length (JSON_stringify P j);
               st3 = (if batchSizeBytes st1 + recordSizeBytes > m \<and> length (batch st1) > 0
                      then (dispatch_v1 dest st1)\<lparr>batch := [], batchSizeBytes := 0\<rparr>
                      else st1)
           in st3\<lparr>batch := batch st3 @ [\<lparr>row_json = j, row_lineNumber = n\<rparr>],
                  batchSizeBytes := batchSizeBytes st3 + recordSizeBytes\<rparr>))"

fun for_items_v1 ::
  "'d platform \<Rightarrow> destination \<Rightarrow> nat \<Rightarrow> item list \<Rightarrow> run_state_v1 \<Rightarrow> run_state_v1" where
  "for_items_v1 P dest m [] st = st"
| "for_items_v1 P dest m (it # its) st = for_items_v1 P dest m its (step_v1 P dest m it st)"

definition initial_state_v1 :: run_state_v1 where
  "initial_state_v1 =
     \<lparr>batch = [], batchSizeBytes = 0, totalBytes = 0, totalRecords = 0, sent = [],
      errors_var = []\<rparr>"

definition insertIntoBq_v1_with ::
  "nat \<Rightarrow> 'd platform \<Rightarrow> destination \<Rightarrow> item list \<Rightarrow> (error \<times> run_state_v1) + run_state_v1" where
  "insertIntoBq_v1_with m P dest items =
     (let st = for_items_v1 P dest m items initial_state_v1;
          st' = (if length (batch st) > 0 then dispatch_v1 dest st else st)
      in if length (errors_var st') > 0
         then Inl (InsertionErrors (length (errors_var st')), st')
         else Inr st')"

definition insertIntoBq_v1 ::
  "'d platform \<Rightarrow> destination \<Rightarrow> item list \<Rightarrow> (error \<times> run_state_v1) + run_state_v1" where
  "insertIntoBq_v1 P dest items = insertIntoBq_v1_with maxBatchSizeBytes P dest items"

section \<open>The triggers\<close>

text \<open>
  The bucket: \<open>get(key)\<close> is \<open>null\<close> or an object whose \<open>body\<close> may be \<open>null\<close>.  The body
  is given as the chunks that come out of \<open>DecompressionStream('gzip')\<close>; a stream that
  fails while it is read is not modelled.
\<close>

record r2_object =
  object_body :: "byte list list option"

type_synonym bucket = "jsstring \<Rightarrow> r2_object option"

definition processR2Object :: "'d platform \<Rightarrow> bucket \<Rightarrow> jsstring \<Rightarrow> error + item list" where
  "processR2Object P r2Binding k =
     (case r2Binding k of
        None \<Rightarrow> Inl (ObjectNotFound k)
      | Some obj \<Rightarrow>
          (case object_body obj of
             None \<Rightarrow> Inl ObjectBodyNull
           | Some chunks \<Rightarrow> Inr (ndjsonStream P chunks)))"

text \<open>
  \<open>const dataStream = await processR2Object(key, bucket); await insertIntoBq(dataStream,
  env)\<close>: the error thrown, if any.  The destination of a queue invocation answers per
  message: \<open>dests i\<close> is the oracle for the run of the \<open>i\<close>-th message.
\<close>

definition run_key ::
  "'d platform \<Rightarrow> bucket \<Rightarrow> (nat \<Rightarrow> destination) \<Rightarrow> nat \<Rightarrow> jsstring \<Rightarrow> error option" where
  "run_key P r2Binding dests i k =
     (case processR2Object P r2Binding k of
        Inl e \<Rightarrow> Some e
      | Inr items \<Rightarrow>
          (case insertIntoBq P (dests i) items of
             Inl (e, st) \<Rightarrow> Some e
           | Inr st \<Rightarrow> None))"

definition run_key_v1 ::
  "'d platform \<Rightarrow> bucket \<Rightarrow> (nat \<Rightarrow> destination) \<Rightarrow> nat \<Rightarrow> jsstring \<Rightarrow> error option" where
  "run_key_v1 P r2Binding dests i k =
     (case processR2Object P r2Binding k of
        Inl e \<Rightarrow> Some e
      | Inr items \<Rightarrow>
          (case insertIntoBq_v1 P (dests i) items of
             Inl (e, st) \<Rightarrow> Some e
           | Inr st \<Rightarrow> None))"

text \<open>
  What a queue invocation does, in order: a run is started for the message at a position
  with a key, a message is acknowledged, an error is logged.
\<close>

datatype queue_event =
    RunStarted nat jsstring
  | Acked nat
  | ErrorLogged nat error

text \<open>
  \<open>queue\<close> of the per-row-count version (lines 306-322): the \<open>catch\<close> logs and rethrows,
  which ends the loop and the handler.  The result is what happened and the error the
  handler throws, if any.  The loop runs over the keys of the messages from position \<open>i\<close>.
\<close>

fun queue_loop ::
  "(nat \<Rightarrow> jsstring \<Rightarrow> error option) \<Rightarrow> nat \<Rightarrow> jsstring list \<Rightarrow> queue_event list \<times> error option" where
  "queue_loop run i [] = ([], None)"
| "queue_loop run i (k # ks) =
     (if prefix (js ''__temporary'') k then queue_loop run (i + 1) ks
      else (case run i k of
              None \<Rightarrow>
                (case queue_loop run (i + 1) ks of
                   (tr, r) \<Rightarrow> (RunStarted i k # Acked i # tr, r))
            | Some e \<Rightarrow> ([RunStarted i k, ErrorLogged i e], Some e)))"

definition queue ::
  "'d platform \<Rightarrow> bucket \<Rightarrow> (nat \<Rightarrow> destination) \<Rightarrow> jsstring list \<Rightarrow> queue_event list \<times> error option" where
  "queue P r2Binding dests messages = queue_loop (run_key P r2Binding dests) 0 messages"

text \<open>
  \<open>queue\<close> of the error-list version (lines 142-156) and of worker.js (lines 191-211): the
  \<open>catch\<close> logs and the loop goes on; no message is acknowledged explicitly and the handler
  never throws.
\<close>

fun queue_loop_v1 ::
  "(nat \<Rightarrow> jsstring \<Rightarrow> error option) \<Rightarrow> nat \<Rightarrow> jsstring list \<Rightarrow> queue_event list" where
  "queue_loop_v1 run i [] = []"
| "queue_loop_v1 run i (k # ks) =
     (if prefix (js ''__temporary'') k then queue_loop_v1 run (i + 1) ks
      else (case run i k of
              None \<Rightarrow> RunStarted i k # queue_loop_v1 run (i + 1) ks
            | Some e \<Rightarrow> RunStarted i k # ErrorLogged i e # queue_loop_v1 run (i + 1) ks))"

definition queue_v1 ::
  "'d platform \<Rightarrow> bucket \<Rightarrow> (nat \<Rightarrow> destination) \<Rightarrow> jsstring list \<Rightarrow> queue_event list" where
  "queue_v1 P r2Binding dests messages = queue_loop_v1 (run_key_v1 P r2Binding dests) 0 messages"

text \<open>
  worker.js, lines 165-176: \<open>processR2Object\<close> does not test the body;
  \<open>compressedStream.pipeThrough\<close> on a \<open>null\<close> body throws a TypeError.  It returns the
  stream of \<open>streamNdjsonObjects\<close>.  The loop of its \<open>insertIntoBq\<close> (lines 107-162) is
  that of the error-list worker.ts; only the text of the terminal error differs.
\<close>

definition processR2Object_js :: "'d platform \<Rightarrow> bucket \<Rightarrow> jsstring \<Rightarrow> error + item list" where
  "processR2Object_js P r2Binding k =
     (case r2Binding k of
        None \<Rightarrow> Inl (ObjectNotFound k)
      | Some obj \<Rightarrow>
          (case object_body obj of
             None \<Rightarrow> Inl TypeError
           | Some chunks \<Rightarrow> Inr (streamNdjsonObjects P chunks)))"

definition run_key_js ::
  "'d platform \<Rightarrow> bucket \<Rightarrow> (nat \<Rightarrow> destination) \<Rightarrow> nat \<Rightarrow> jsstring \<Rightarrow> error option" where
  "run_key_js P r2Binding dests i k =
     (case processR2Object_js P r2Binding k of
        Inl e \<Rightarrow> Some e
      | Inr items \<Rightarrow>
          (case insertIntoBq_v1 P (dests i) items of
             Inl (e, st) \<Rightarrow> Some e
           | Inr st \<Rightarrow> None))"

definition queue_js ::
  "'d platform \<Rightarrow> bucket \<Rightarrow> (nat \<Rightarrow> destination) \<Rightarrow> jsstring list \<Rightarrow> queue_event list" where
  "queue_js P r2Binding dests messages = queue_loop_v1 (run_key_js P r2Binding dests) 0 messages"

section \<open>Reference definitions\<close>

text \<open>
  The text of an object: everything the decoder has produced once all bytes are fed
  (the source never flushes the decoder, so the bytes of an unfinished character at the
  very end are dropped).
\<close>

definition decode_text :: "'d platform \<Rightarrow> byte list \<Rightarrow> jsstring" where
  "decode_text P bs = fst (decode P (decoder_init P) bs)"

text \<open>
  The decoder as the specification words it: the lines of the text are numbered from 1,
  blank lines included; the \<open>k\<close>-th line yields nothing when it is blank and one item with
  \<open>lineNumber = k\<close> otherwise.
\<close>

definition line_items :: "(jsstring \<Rightarrow> nat \<Rightarrow> item) \<Rightarrow> jsstring \<Rightarrow> nat \<Rightarrow> item list" where
  "line_items h l k = (if truthy (trim l) then [h l k] else [])"

definition items_of_lines :: "(jsstring \<Rightarrow> nat \<Rightarrow> item) \<Rightarrow> jsstring list \<Rightarrow> item list" where
  "items_of_lines h ls = concat (map (\<lambda>k. line_items h (ls ! (k - 1)) k) [1..<Suc (length ls)])"

text \<open>
  The batcher as the specification words it, over the records with their serialised
  sizes: flush the accumulating batch when the next record would push the running total
  above the threshold and the batch is not empty, start the new batch with that record,
  flush what is left at the end.
\<close>

fun batcher ::
  "nat \<Rightarrow> (BatchItem \<times> nat) list \<Rightarrow> BatchItem list \<Rightarrow> nat \<Rightarrow> BatchItem list list" where
  "batcher m [] acc tot = (if acc = [] then [] else [acc])"
| "batcher m ((r, sz) # rs) acc tot =
     (if tot + sz > m \<and> acc \<noteq> [] then acc # batcher m rs [r] sz
      else batcher m rs (acc @ [r]) (tot + sz))"

fun records_of :: "'d platform \<Rightarrow> item list \<Rightarrow> (BatchItem \<times> nat) list" where
  "records_of P [] = []"
| "records_of P (StreamItem j b n # its) =
     (\<lparr>row_json = j, row_lineNumber = n\<rparr>, length (JSON_stringify P j)) # records_of P its"
| "records_of P (ErrorItem l n msg # its) = records_of P its"

definition batches :: "nat \<Rightarrow> 'd platform \<Rightarrow> item list \<Rightarrow> BatchItem list list" where
  "batches m P items = batcher m (records_of P items) [] 0"

fun parse_failures :: "item list \<Rightarrow> nat" where
  "parse_failures [] = 0"
| "parse_failures (StreamItem j b n # its) = parse_failures its"
| "parse_failures (ErrorItem l n msg # its) = Suc (parse_failures its)"

text \<open>
  A request is accepted when neither \<open>sendBatchToBigQuery\<close> nor
  \<open>handleBigQueryResponse\<close> throws on its response: a success status, a JSON body, and a
  first reported index (if any) that is a position of the batch.
\<close>

definition accepted :: "destination \<Rightarrow> nat \<Rightarrow> BatchItem list \<Rightarrow> bool" where
  "accepted dest i b =
     (let r = dest i (rows b)
      in ok r \<and>
         (case body r of
            None \<Rightarrow> False
          | Some bd \<Rightarrow>
              (case insertErrors bd of
                 None \<Rightarrow> True
               | Some [] \<Rightarrow> True
               | Some (e # es) \<Rightarrow> 0 \<le> index e \<and> index e < int (length b))))"

text \<open>The number of \<open>insertErrors\<close> entries a response reports.\<close>

definition reported_failures :: "http_response \<Rightarrow> nat" where
  "reported_failures r =
     (case body r of
        None \<Rightarrow> 0
      | Some bd \<Rightarrow> (case insertErrors bd of None \<Rightarrow> 0 | Some es \<Rightarrow> length es))"

text \<open>Over the batches of a run, the first of them being request number \<open>k\<close>.\<close>

fun all_accepted :: "destination \<Rightarrow> nat \<Rightarrow> BatchItem list list \<Rightarrow> bool" where
  "all_accepted dest k [] = True"
| "all_accepted dest k (b # bs) = (accepted dest k b \<and> all_accepted dest (Suc k) bs)"

fun row_failures :: "destination \<Rightarrow> nat \<Rightarrow> BatchItem list list \<Rightarrow> nat" where
  "row_failures dest k [] = 0"
| "row_failures dest k (b # bs) =
     reported_failures (dest k (rows b)) + row_failures dest (Suc k) bs"

text \<open>The batches up to and including the first one whose request is not accepted.\<close>

fun posted :: "destination \<Rightarrow> nat \<Rightarrow> BatchItem list list \<Rightarrow> BatchItem list list" where
  "posted dest k [] = []"
| "posted dest k (b # bs) = (if accepted dest k b then b # posted dest (Suc k) bs else [b])"

text \<open>The errors the error-list version collects: one per request that throws.\<close>

fun batch_errors :: "destination \<Rightarrow> nat \<Rightarrow> BatchItem list list \<Rightarrow> error list" where
  "batch_errors dest k [] = []"
| "batch_errors dest k (b # bs) =
     (case sendBatchToBigQuery_v1 dest k b of
        None \<Rightarrow> batch_errors dest (Suc k) bs
      | Some e \<Rightarrow> e # batch_errors dest (Suc k) bs)"

text \<open>
  The loop of \<open>insertIntoBq\<close> followed by the dispatch of the last batch, from any state
  of the variables: what \<open>insertIntoBq\<close> does before it looks at its totals.
\<close>

definition run_batches ::
  "'d platform \<Rightarrow> destination \<Rightarrow> nat \<Rightarrow> item list \<Rightarrow> run_state \<Rightarrow> (error \<times> run_state) + run_state" where
  "run_batches P dest m items st =
     (case for_items P dest m items st of
        Inl e \<Rightarrow> Inl e
      | Inr st' \<Rightarrow> if length (batch st') > 0 then dispatch dest st' else Inr st')"

definition run_batches_v1 ::
  "'d platform \<Rightarrow> destination \<Rightarrow> nat \<Rightarrow> item list \<Rightarrow> run_state_v1 \<Rightarrow> run_state_v1" where
  "run_batches_v1 P dest m items st =
     (let st' = for_items_v1 P dest m items st
      in if length (batch st') > 0 then dispatch_v1 dest st' else st')"

text \<open>The state a run ends in, whether it returns or throws, and the error it throws.\<close>

definition final_state :: "(error \<times> 's) + 's \<Rightarrow> 's" where
  "final_state r = (case r of Inl (e, st) \<Rightarrow> st | Inr st \<Rightarrow> st)"

definition thrown :: "(error \<times> 's) + 's \<Rightarrow> error option" where
  "thrown r = (case r of Inl (e, st) \<Rightarrow> Some e | Inr st \<Rightarrow> None)"

text \<open>The runs a queue invocation started, in order.\<close>

fun started :: "queue_event list \<Rightarrow> (nat \<times> jsstring) list" where
  "started [] = []"
| "started (RunStarted i k # evs) = (i, k) # started evs"
| "started (Acked i # evs) = started evs"
| "started (ErrorLogged i e # evs) = started evs"

text \<open>The messages that name an object to process, with their positions from \<open>i\<close>.\<close>

fun to_process :: "nat \<Rightarrow> jsstring list \<Rightarrow> (nat \<times> jsstring) list" where
  "to_process i [] = []"
| "to_process i (k # ks) =
     (if prefix (js ''__temporary'') k then to_process (Suc i) ks
      else (i, k) # to_process (Suc i) ks)"

text \<open>
  Of the messages to process, those up to and including the first whose run fails, and
  the error of that run.
\<close>

fun until_first_failure ::
  "(nat \<Rightarrow> jsstring \<Rightarrow> error option) \<Rightarrow> (nat \<times> jsstring) list \<Rightarrow> (nat \<times> jsstring) list" where
  "until_first_failure run [] = []"
| "until_first_failure run ((i, k) # xs) =
     (case run i k of
        None \<Rightarrow> (i, k) # until_first_failure run xs
      | Some e \<Rightarrow> [(i, k)])"

fun first_failure ::
  "(nat \<Rightarrow> jsstring \<Rightarrow> error option) \<Rightarrow> (nat \<times> jsstring) list \<Rightarrow> error option" where
  "first_failure run [] = None"
| "first_failure run ((i, k) # xs) =
     (case run i k of
        None \<Rightarrow> first_failure run xs
      | Some e \<Rightarrow> Some e)"

section \<open>A concrete platform\<close>

text \<open>
  An instance of the platform on which the general theorems are applied to concrete
  inputs: bytes below 128 decode to the code unit of the same value, as UTF-8 does; the
  parser knows a few lines, on which it agrees with \<open>JSON.parse\<close>, and rejects every
  other one; the serialiser writes strings without escapes.
\<close>

definition bytes_of :: "string \<Rightarrow> byte list" where
  "bytes_of s = map (\<lambda>c. of_nat (of_char c)) s"

definition sample_parse :: "jsstring \<Rightarrow> jsstring + json" where
  "sample_parse l =
     (if l = js ''{}'' then Inr (JObject [])
      else if l = js ''null'' then Inr JNull
      else if l = js ''[]'' then Inr (JArray [])
      else if l = [123, 34] @ js ''hasOwnProperty'' @ [34, 58] @ js ''null}''
      then Inr (JObject [(js ''hasOwnProperty'', JNull)])
      else if l = [123, 34] @ js ''generated_at'' @ [34, 58] @ js ''null}''
      then Inr (JObject [(js ''generated_at'', JNull)])
      else Inl (js ''Unexpected token''))"

fun join_comma :: "jsstring list \<Rightarrow> jsstring" where
  "join_comma [] = []"
| "join_comma [s] = s"
| "join_comma (s # t # ts) = s @ [44] @ join_comma (t # ts)"

fun sample_stringify :: "json \<Rightarrow> jsstring" where
  "sample_stringify JNull = js ''null''"
| "sample_stringify (JBool b) = (if b then js ''true'' else js ''false'')"
| "sample_stringify (JNumber x) = js ''0''"
| "sample_stringify (JString s) = [34] @ s @ [34]"
| "sample_stringify (JArray xs) = [91] @ join_comma (map sample_stringify xs) @ [93]"
| "sample_stringify (JObject ps) =
     [123] @ join_comma (map (\<lambda>p. [34] @ fst p @ [34, 58] @ sample_stringify (snd p)) ps) @ [125]"

definition sample_platform :: "unit platform" where
  "sample_platform =
     \<lparr>decoder_init = (),
      decoder_step = (\<lambda>d b. ([ucast b], d)),
      JSON_parse = sample_parse,
      JSON_stringify = sample_stringify,
      toISOString = (\<lambda>n. js ''2024-09-19T18:00:00.000Z''),
      TypeError_message = (\<lambda>j. js ''json.hasOwnProperty is not a function'')\<rparr>"

text \<open>A bucket without objects.\<close>

definition empty_bucket :: bucket where
  "empty_bucket k = None"

text \<open>A destination that accepts every row, and one that answers every request with 500.\<close>

definition dest_ok :: destination where
  "dest_ok n rs = \<lparr>ok = True, status = 200, body = Some \<lparr>insertErrors = None\<rparr>\<rparr>"

definition dest_500 :: destination where
  "dest_500 n rs = \<lparr>ok = False, status = 500, body = Some \<lparr>insertErrors = None\<rparr>\<rparr>"

text \<open>A JSON string of 1,048,576 letters: its serialisation is longer than one batch.\<close>

definition big_string :: json where
  "big_string = JString (replicate 1048576 97)"

text \<open>A JSON string of 98 letters: its serialisation has 100 code units.\<close>

definition string100 :: json where
  "string100 = JString (replicate 98 97)"

text \<open>A destination that reports the first row of every request as failed.\<close>

definition dest_first_row_fails :: destination where
  "dest_first_row_fails n rs =
     \<lparr>ok = True, status = 200,
      body = Some \<lparr>insertErrors = Some [\<lparr>index = 0, errors = [js ''no such field'']\<rparr>]\<rparr>\<rparr>"

section \<open>Properties of the decoder\<close>

lemma split_nl_not_Nil [simp]: "split_nl s \<noteq> []"
  by (induction s) auto

lemma split_nl_append:
  "split_nl (a @ b) = butlast (split_nl a) @ split_nl (last (split_nl a) @ b)"
proof (induction a)
  case Nil
  show ?case by simp
next
  case (Cons c a)
  show ?case
  proof (cases "c = 10")
    case True
    with Cons show ?thesis by simp
  next
    case False
    obtain l ls where L: "split_nl a = l # ls"
      by (cases "split_nl a") auto
    show ?thesis
    proof (cases ls)
      case Nil
      with False L Cons show ?thesis by simp
    next
      case (Cons l' ls')
      with False L Cons.IH show ?thesis by simp
    qed
  qed
qed

lemma split_nl_no_LF: "10 \<notin> set s \<Longrightarrow> split_nl s = [s]"
  by (induction s) auto

lemma last_split_nl_no_LF: "10 \<notin> set (last (split_nl s))"
proof (induction s)
  case Nil
  show ?case by simp
next
  case (Cons c s)
  then show ?case
    by (cases "split_nl s") auto
qed

lemma pop_or_empty_split [simp]: "pop_or_empty (split_nl s) = last (split_nl s)"
  by (cases "split_nl s") (auto simp: pop_or_empty_def)

lemma decode_append:
  "decode P d (a @ b) =
     (case decode P d a of (s, d') \<Rightarrow> (case decode P d' b of (t, d'') \<Rightarrow> (s @ t, d'')))"
  by (induction a arbitrary: d) (auto split: prod.splits)

lemma for_lines_append:
  "for_lines h (xs @ ys) n =
     (case for_lines h xs n of (a, m) \<Rightarrow> (case for_lines h ys m of (b, k) \<Rightarrow> (a @ b, k)))"
  by (induction xs arbitrary: n) (auto simp: Let_def split: prod.splits)

lemma for_lines_counter: "snd (for_lines h ls n) = n + length ls"
  by (induction ls arbitrary: n) (simp_all add: Let_def split_beta)

lemma for_lines_items:
  "fst (for_lines h ls n) = concat (map (\<lambda>k. line_items h (ls ! (k - Suc n)) k) [Suc n..<Suc n + length ls])"
proof (induction ls arbitrary: n)
  case Nil
  show ?case by simp
next
  case (Cons l ls)
  have A: "[Suc n..<Suc n + length (l # ls)] = Suc n # [Suc (Suc n)..<Suc (Suc n) + length ls]"
    by (subst upt_rec) simp
  have B: "map (\<lambda>k. line_items h ((l # ls) ! (k - Suc n)) k) [Suc (Suc n)..<Suc (Suc n) + length ls]
      = map (\<lambda>k. line_items h (ls ! (k - Suc (Suc n))) k) [Suc (Suc n)..<Suc (Suc n) + length ls]"
  proof (rule map_cong)
    fix k assume "k \<in> set [Suc (Suc n)..<Suc (Suc n) + length ls]"
    then have "k - Suc n = Suc (k - Suc (Suc n))" by auto
    then show "line_items h ((l # ls) ! (k - Suc n)) k = line_items h (ls ! (k - Suc (Suc n))) k"
      by simp
  qed simp
  have "fst (for_lines h (l # ls) n) = line_items h l (Suc n) @ fst (for_lines h ls (Suc n))"
    by (simp add: Let_def split_beta line_items_def)
  also have "\<dots> = line_items h l (Suc n)
      @ concat (map (\<lambda>k. line_items h (ls ! (k - Suc (Suc n))) k) [Suc (Suc n)..<Suc (Suc n) + length ls])"
    by (simp only: Cons.IH)
  also have "\<dots> = concat (map (\<lambda>k. line_items h ((l # ls) ! (k - Suc n)) k)
      (Suc n # [Suc (Suc n)..<Suc (Suc n) + length ls]))"
    by (simp only: B [symmetric] list.map concat.simps diff_self_eq_0 nth_Cons_0)
  finally show ?case by (simp only: A)
qed

lemma for_lines_snoc:
  "fst (for_lines h (xs @ [l]) n) = fst (for_lines h xs n) @ line_items h l (Suc (n + length xs))"
  using for_lines_counter [of h xs n]
  by (simp add: for_lines_append split_beta Let_def line_items_def)

text \<open>The state of the reader loop after the chunks, in terms of the text decoded.\<close>

lemma read_loop_text:
  assumes "decode P (decoder st) (concat chunks) = (t, d)" and "10 \<notin> set (buffer st)"
  shows "read_loop P h chunks st =
           (fst (for_lines h (butlast (split_nl (buffer st @ t))) (lineNumber_var st)),
            \<lparr>decoder = d, buffer = last (split_nl (buffer st @ t)),
             lineNumber_var = lineNumber_var st + (length (split_nl (buffer st @ t)) - 1)\<rparr>)"
  using assms
proof (induction chunks arbitrary: st t d)
  case Nil
  then show ?case by (simp add: split_nl_no_LF)
next
  case (Cons c cs)
  obtain t1 d1 where D1: "decode P (decoder st) c = (t1, d1)" by force
  obtain t2 d2 where D2: "decode P d1 (concat cs) = (t2, d2)" by force
  from Cons.prems D1 D2 have T: "t = t1 @ t2" and D: "d = d2"
    by (simp_all add: decode_append)
  let ?L1 = "split_nl (buffer st @ t1)"
  let ?st1 = "\<lparr>decoder = d1, buffer = last ?L1,
               lineNumber_var = snd (for_lines h (butlast ?L1) (lineNumber_var st))\<rparr>"
  have IH: "read_loop P h cs ?st1 =
      (fst (for_lines h (butlast (split_nl (last ?L1 @ t2))) (lineNumber_var ?st1)),
       \<lparr>decoder = d2, buffer = last (split_nl (last ?L1 @ t2)),
        lineNumber_var = lineNumber_var ?st1 + (length (split_nl (last ?L1 @ t2)) - 1)\<rparr>)"
    using Cons.IH [of ?st1 t2 d2] D2 by (simp add: last_split_nl_no_LF)
  have S: "split_nl (buffer st @ t) = butlast ?L1 @ split_nl (last ?L1 @ t2)"
    unfolding T using split_nl_append [of "buffer st @ t1" t2] by simp
  have B: "butlast (split_nl (buffer st @ t)) = butlast ?L1 @ butlast (split_nl (last ?L1 @ t2))"
    unfolding S by (simp add: butlast_append)
  have La: "last (split_nl (buffer st @ t)) = last (split_nl (last ?L1 @ t2))"
    unfolding S by simp
  have Len: "length (split_nl (buffer st @ t)) - 1
      = length (butlast ?L1) + (length (split_nl (last ?L1 @ t2)) - 1)"
    unfolding S using split_nl_not_Nil [of "last ?L1 @ t2"]
    by (cases "split_nl (last ?L1 @ t2)") simp_all
  have C: "snd (for_lines h (butlast ?L1) (lineNumber_var st)) = lineNumber_var st + length (butlast ?L1)"
    by (rule for_lines_counter)
  show ?case
    unfolding B La Len
    using D1 IH C D
    by (simp add: Let_def split_beta for_lines_append)
qed

lemma decoder_run_text:
  "decoder_run P h chunks =
     (items_of_lines h (split_nl (decode_text P (concat chunks))),
      \<lparr>decoder = snd (decode P (decoder_init P) (concat chunks)),
       buffer = last (split_nl (decode_text P (concat chunks))),
       lineNumber_var = length (split_nl (decode_text P (concat chunks))) - 1
         + (if truthy (trim (last (split_nl (decode_text P (concat chunks))))) then 1 else 0)\<rparr>)"
proof -
  let ?T = "decode_text P (concat chunks)"
  let ?L = "split_nl ?T"
  let ?n = "length ?L - 1"
  obtain d where D: "decode P (decoder_init P) (concat chunks) = (?T, d)"
    by (cases "decode P (decoder_init P) (concat chunks)") (simp add: decode_text_def)
  have R: "read_loop P h chunks \<lparr>decoder = decoder_init P, buffer = [], lineNumber_var = 0\<rparr> =
      (fst (for_lines h (butlast ?L) 0), \<lparr>decoder = d, buffer = last ?L, lineNumber_var = ?n\<rparr>)"
    using read_loop_text [of P "\<lparr>decoder = decoder_init P, buffer = [], lineNumber_var = 0\<rparr>" chunks ?T d h] D
    by simp
  have L: "?L = butlast ?L @ [last ?L]" by simp
  have len: "length ?L = Suc ?n" using split_nl_not_Nil [of ?T] by (cases ?L) simp_all
  have I: "items_of_lines h ?L = fst (for_lines h ?L 0)"
    by (simp add: items_of_lines_def for_lines_items)
  have F: "fst (for_lines h ?L 0) = fst (for_lines h (butlast ?L) 0) @ line_items h (last ?L) (Suc ?n)"
    using for_lines_snoc [of h "butlast ?L" "last ?L" 0] by simp
  show ?thesis
    unfolding decoder_run_def R I F using D
    by (simp add: line_items_def)
qed

lemma ndjsonStream_text:
  "ndjsonStream P chunks = items_of_lines (parse_line P) (split_nl (decode_text P (concat chunks)))"
  by (simp add: ndjsonStream_def ndjsonStream_run_def decoder_run_text)

lemma items_of_lines_for_lines: "items_of_lines h ls = fst (for_lines h ls 0)"
  by (simp add: items_of_lines_def for_lines_items)

lemma split_nl_line: "10 \<notin> set a \<Longrightarrow> split_nl (a @ 10 # b) = a # split_nl b"
  by (induction a) auto

lemma length_split_nl: "length (split_nl s) = Suc (length (filter (\<lambda>c. c = 10) s))"
proof (induction s)
  case Nil
  show ?case by simp
next
  case (Cons c s)
  then show ?case by (cases "split_nl s") auto
qed

lemma for_lines_blank:
  "\<forall>l\<in>set ls. \<not> truthy (trim l) \<Longrightarrow> fst (for_lines h ls n) = []"
  by (induction ls arbitrary: n) (simp_all add: Let_def split_beta)

lemma lineNumber_parse_line: "lineNumber (parse_line P l k) = k"
  by (simp add: parse_line_def split: sum.splits)

text \<open>
  Claim C4.  Whatever the chunks, the items are those of the lines of the whole text: the
  \<open>k\<close>-th line (counted from 1, blank lines included) yields nothing when it is blank and
  otherwise one item whose \<open>lineNumber\<close> is \<open>k\<close>.  Two ways of cutting the same bytes
  into chunks give the same items.
\<close>

theorem ndjsonStream_line_numbers:
  "ndjsonStream P chunks = items_of_lines (parse_line P) (split_nl (decode_text P (concat chunks)))
   \<and> (concat chunks = concat chunks' \<longrightarrow> ndjsonStream P chunks = ndjsonStream P chunks')
   \<and> lineNumber (parse_line P l k) = k
   \<and> (\<not> truthy (trim l) \<longrightarrow> line_items (parse_line P) l k = [])"
  by (simp add: ndjsonStream_text lineNumber_parse_line line_items_def)

theorem ndjsonStream_line_numbers_witness:
  "concat [bytes_of ''{'', bytes_of ''}'' @ [10, 32, 10] @ bytes_of ''nu'', bytes_of ''ll'']
     = concat [bytes_of ''{}'' @ [10, 32, 10] @ bytes_of ''null'']
   \<and> ndjsonStream sample_platform [bytes_of ''{'', bytes_of ''}'' @ [10, 32, 10] @ bytes_of ''nu'', bytes_of ''ll'']
     = ndjsonStream sample_platform [bytes_of ''{}'' @ [10, 32, 10] @ bytes_of ''null'']
   \<and> ndjsonStream sample_platform [bytes_of ''{'', bytes_of ''}'' @ [10, 32, 10] @ bytes_of ''nu'', bytes_of ''ll'']
     = [StreamItem (JObject []) 2 1, StreamItem JNull 4 3]"
proof -
  have c: "concat [bytes_of ''{'', bytes_of ''}'' @ [10, 32, 10] @ bytes_of ''nu'', bytes_of ''ll'']
     = concat [bytes_of ''{}'' @ [10, 32, 10] @ bytes_of ''null'']"
    by (simp add: bytes_of_def)
  have e: "ndjsonStream sample_platform [bytes_of ''{}'' @ [10, 32, 10] @ bytes_of ''null'']
     = [StreamItem (JObject []) 2 1, StreamItem JNull 4 3]"
    by (simp add: ndjsonStream_def ndjsonStream_run_def decoder_run_def sample_platform_def
        bytes_of_def js_def trim_def truthy_def is_whitespace_def parse_line_def sample_parse_def
        pop_or_empty_def Let_def)
  have "concat [bytes_of ''{'', bytes_of ''}'' @ [10, 32, 10] @ bytes_of ''nu'', bytes_of ''ll'']
     = concat [bytes_of ''{}'' @ [10, 32, 10] @ bytes_of ''null'']
   \<longrightarrow> ndjsonStream sample_platform [bytes_of ''{'', bytes_of ''}'' @ [10, 32, 10] @ bytes_of ''nu'', bytes_of ''ll'']
     = ndjsonStream sample_platform [bytes_of ''{}'' @ [10, 32, 10] @ bytes_of ''null'']"
    using ndjsonStream_line_numbers
      [of sample_platform "[bytes_of ''{'', bytes_of ''}'' @ [10, 32, 10] @ bytes_of ''nu'', bytes_of ''ll'']"
        "[bytes_of ''{}'' @ [10, 32, 10] @ bytes_of ''null'']"]
    by blast
  with c have eq: "ndjsonStream sample_platform [bytes_of ''{'', bytes_of ''}'' @ [10, 32, 10] @ bytes_of ''nu'', bytes_of ''ll'']
     = ndjsonStream sample_platform [bytes_of ''{}'' @ [10, 32, 10] @ bytes_of ''null'']"
    by blast
  show ?thesis
    by (intro conjI) (rule c, rule eq, rule trans [OF eq e])
qed

lemma parse_line_cases:
  "(\<exists>j. parse_line P l n = StreamItem j (length (JSON_stringify P j)) n)
   \<or> (\<exists>msg. parse_line P l n = ErrorItem l n msg)"
  by (simp add: parse_line_def split: sum.splits)

lemma ndjsonStream_for_lines:
  "ndjsonStream P chunks = fst (for_lines (parse_line P) (split_nl (decode_text P (concat chunks))) 0)"
  by (simp add: ndjsonStream_text items_of_lines_for_lines)

lemma for_lines_at:
  assumes "k < length ls"
  shows "fst (for_lines h ls n) =
           fst (for_lines h (take k ls) n) @ line_items h (ls ! k) (Suc (n + k))
             @ fst (for_lines h (drop (Suc k) ls) (Suc (n + k)))"
proof -
  have "ls = take k ls @ (ls ! k) # drop (Suc k) ls"
    using assms by (simp add: id_take_nth_drop)
  then have "for_lines h ls n = for_lines h (take k ls @ (ls ! k) # drop (Suc k) ls) n"
    by simp
  also have "fst \<dots> = fst (for_lines h (take k ls) n) @ line_items h (ls ! k) (Suc (n + k))
             @ fst (for_lines h (drop (Suc k) ls) (Suc (n + k)))"
    using for_lines_counter [of h "take k ls" n] assms
    by (simp add: for_lines_append split_beta Let_def line_items_def min_def)
  finally show ?thesis .
qed

text \<open>
  Claim C6.  A line that is not blank and that the parser rejects yields exactly one
  \<open>ErrorItem\<close> with the text of the line, its number and the parser's message, between the
  items of the lines before it and those of the lines after it, which are decoded as if
  nothing had happened.  A malformed line between two valid ones gives a record, a
  failure and a record, numbered 1, 2 and 3.
\<close>

theorem ndjsonStream_malformed_line:
  "(k < length (split_nl (decode_text P (concat chunks)))
      \<and> truthy (trim (split_nl (decode_text P (concat chunks)) ! k))
      \<and> JSON_parse P (split_nl (decode_text P (concat chunks)) ! k) = Inl msg
    \<longrightarrow> ndjsonStream P chunks =
          fst (for_lines (parse_line P) (take k (split_nl (decode_text P (concat chunks)))) 0)
          @ [ErrorItem (split_nl (decode_text P (concat chunks)) ! k) (Suc k) msg]
          @ fst (for_lines (parse_line P) (drop (Suc k) (split_nl (decode_text P (concat chunks)))) (Suc k)))
   \<and> (decode_text P (concat chunks) = l1 @ [10] @ l2 @ [10] @ l3
      \<and> 10 \<notin> set l1 \<and> 10 \<notin> set l2 \<and> 10 \<notin> set l3
      \<and> truthy (trim l1) \<and> truthy (trim l2) \<and> truthy (trim l3)
      \<and> JSON_parse P l1 = Inr j1 \<and> JSON_parse P l2 = Inl msg \<and> JSON_parse P l3 = Inr j3
    \<longrightarrow> ndjsonStream P chunks =
          [StreamItem j1 (length (JSON_stringify P j1)) 1, ErrorItem l2 2 msg,
           StreamItem j3 (length (JSON_stringify P j3)) 3])"
proof (intro conjI impI)
  let ?ls = "split_nl (decode_text P (concat chunks))"
  assume A: "k < length ?ls \<and> truthy (trim (?ls ! k)) \<and> JSON_parse P (?ls ! k) = Inl msg"
  then have "line_items (parse_line P) (?ls ! k) (Suc k) = [ErrorItem (?ls ! k) (Suc k) msg]"
    by (simp add: line_items_def parse_line_def)
  with A for_lines_at [of k ?ls "parse_line P" 0]
  show "ndjsonStream P chunks =
          fst (for_lines (parse_line P) (take k ?ls) 0) @ [ErrorItem (?ls ! k) (Suc k) msg]
          @ fst (for_lines (parse_line P) (drop (Suc k) ?ls) (Suc k))"
    by (simp add: ndjsonStream_for_lines)
next
  assume A: "decode_text P (concat chunks) = l1 @ [10] @ l2 @ [10] @ l3
      \<and> 10 \<notin> set l1 \<and> 10 \<notin> set l2 \<and> 10 \<notin> set l3
      \<and> truthy (trim l1) \<and> truthy (trim l2) \<and> truthy (trim l3)
      \<and> JSON_parse P l1 = Inr j1 \<and> JSON_parse P l2 = Inl msg \<and> JSON_parse P l3 = Inr j3"
  then have "split_nl (decode_text P (concat chunks)) = [l1, l2, l3]"
    by (simp add: split_nl_line split_nl_no_LF)
  with A show "ndjsonStream P chunks =
          [StreamItem j1 (length (JSON_stringify P j1)) 1, ErrorItem l2 2 msg,
           StreamItem j3 (length (JSON_stringify P j3)) 3]"
    by (simp add: ndjsonStream_for_lines Let_def parse_line_def)
qed

theorem ndjsonStream_malformed_line_witness:
  "decode_text sample_platform (concat [bytes_of ''{}'' @ [10] @ bytes_of ''oo'', bytes_of ''ps'' @ [10] @ bytes_of ''null''])
     = js ''{}'' @ [10] @ js ''oops'' @ [10] @ js ''null''
   \<and> truthy (trim (js ''oops''))
   \<and> JSON_parse sample_platform (js ''oops'') = Inl (js ''Unexpected token'')
   \<and> ndjsonStream sample_platform [bytes_of ''{}'' @ [10] @ bytes_of ''oo'', bytes_of ''ps'' @ [10] @ bytes_of ''null'']
     = [StreamItem (JObject []) 2 1, ErrorItem (js ''oops'') 2 (js ''Unexpected token''),
        StreamItem JNull 4 3]
   \<and> ndjsonStream sample_platform [bytes_of ''{}'' @ [10] @ bytes_of ''oo'', bytes_of ''ps'' @ [10] @ bytes_of ''null'']
     = fst (for_lines (parse_line sample_platform) [js ''{}''] 0)
       @ [ErrorItem (js ''oops'') 2 (js ''Unexpected token'')]
       @ fst (for_lines (parse_line sample_platform) [js ''null''] 2)"
proof -
  have t: "decode_text sample_platform (concat [bytes_of ''{}'' @ [10] @ bytes_of ''oo'', bytes_of ''ps'' @ [10] @ bytes_of ''null''])
     = js ''{}'' @ [10] @ js ''oops'' @ [10] @ js ''null''"
    by (simp add: decode_text_def sample_platform_def bytes_of_def js_def)
  have n: "10 \<notin> set (js ''{}'') \<and> 10 \<notin> set (js ''oops'') \<and> 10 \<notin> set (js ''null'')"
    by (simp add: js_def)
  have b: "truthy (trim (js ''{}'')) \<and> truthy (trim (js ''oops'')) \<and> truthy (trim (js ''null''))"
    by (simp add: js_def trim_def truthy_def is_whitespace_def)
  have p: "JSON_parse sample_platform (js ''{}'') = Inr (JObject [])
      \<and> JSON_parse sample_platform (js ''oops'') = Inl (js ''Unexpected token'')
      \<and> JSON_parse sample_platform (js ''null'') = Inr JNull"
    by (simp add: sample_platform_def sample_parse_def js_def)
  have s: "length (JSON_stringify sample_platform (JObject [])) = 2
      \<and> length (JSON_stringify sample_platform JNull) = 4"
    by (simp add: sample_platform_def js_def)
  have "ndjsonStream sample_platform [bytes_of ''{}'' @ [10] @ bytes_of ''oo'', bytes_of ''ps'' @ [10] @ bytes_of ''null'']
     = [StreamItem (JObject []) (length (JSON_stringify sample_platform (JObject []))) 1,
        ErrorItem (js ''oops'') 2 (js ''Unexpected token''),
        StreamItem JNull (length (JSON_stringify sample_platform JNull)) 3]"
    using ndjsonStream_malformed_line
      [of 0 sample_platform "[bytes_of ''{}'' @ [10] @ bytes_of ''oo'', bytes_of ''ps'' @ [10] @ bytes_of ''null'']"
        "js ''Unexpected token''" "js ''{}''" "js ''oops''" "js ''null''" "JObject []" JNull]
      t n b p
    by blast
  then have whole: "ndjsonStream sample_platform [bytes_of ''{}'' @ [10] @ bytes_of ''oo'', bytes_of ''ps'' @ [10] @ bytes_of ''null'']
     = [StreamItem (JObject []) 2 1, ErrorItem (js ''oops'') 2 (js ''Unexpected token''),
        StreamItem JNull 4 3]"
    using s by simp
  have ls: "split_nl (decode_text sample_platform (concat [bytes_of ''{}'' @ [10] @ bytes_of ''oo'', bytes_of ''ps'' @ [10] @ bytes_of ''null'']))
      = [js ''{}'', js ''oops'', js ''null'']"
    unfolding t using n by (simp add: split_nl_line split_nl_no_LF)
  have around: "ndjsonStream sample_platform [bytes_of ''{}'' @ [10] @ bytes_of ''oo'', bytes_of ''ps'' @ [10] @ bytes_of ''null'']
     = fst (for_lines (parse_line sample_platform) [js ''{}''] 0)
       @ [ErrorItem (js ''oops'') 2 (js ''Unexpected token'')]
       @ fst (for_lines (parse_line sample_platform) [js ''null''] 2)"
    using ndjsonStream_malformed_line
      [of 1 sample_platform "[bytes_of ''{}'' @ [10] @ bytes_of ''oo'', bytes_of ''ps'' @ [10] @ bytes_of ''null'']"
        "js ''Unexpected token''"]
      b p
    unfolding ls by (simp add: numeral_2_eq_2 numeral_3_eq_3)
  from t b p whole around show ?thesis by blast
qed

lemma ndjsonStream_run_text:
  "ndjsonStream_run P chunks =
     (items_of_lines (parse_line P) (split_nl (decode_text P (concat chunks))),
      \<lparr>decoder = snd (decode P (decoder_init P) (concat chunks)),
       buffer = last (split_nl (decode_text P (concat chunks))),
       lineNumber_var = length (split_nl (decode_text P (concat chunks))) - 1
         + (if truthy (trim (last (split_nl (decode_text P (concat chunks))))) then 1 else 0)\<rparr>)"
  by (simp add: ndjsonStream_run_def decoder_run_text)

lemma items_of_lines_snoc:
  "items_of_lines h (xs @ [l]) = items_of_lines h xs @ line_items h l (Suc (length xs))"
  using for_lines_snoc [of h xs l 0] by (simp add: items_of_lines_for_lines)

lemma items_of_lines_butlast:
  "ls \<noteq> [] \<Longrightarrow> items_of_lines h ls = items_of_lines h (butlast ls) @ line_items h (last ls) (length ls)"
  using items_of_lines_snoc [of h "butlast ls" "last ls"] by simp

text \<open>
  Claim C7.  When the reader is done, the carry-over buffer is the last piece of the
  text, the one after the last line feed.  If it is not blank it is one more line: the
  counter is incremented and the piece yields a record or a failure with that number.
  An input without bytes yields nothing.  An input whose lines are all blank yields
  nothing, and the counter has advanced once for every line feed.
\<close>

theorem ndjsonStream_end_of_input:
  "buffer (snd (ndjsonStream_run P chunks)) = last (split_nl (decode_text P (concat chunks)))
   \<and> (truthy (trim (last (split_nl (decode_text P (concat chunks)))))
      \<longrightarrow> ndjsonStream P chunks =
            items_of_lines (parse_line P) (butlast (split_nl (decode_text P (concat chunks))))
            @ [parse_line P (last (split_nl (decode_text P (concat chunks))))
                 (length (split_nl (decode_text P (concat chunks))))]
          \<and> lineNumber_var (snd (ndjsonStream_run P chunks))
              = length (split_nl (decode_text P (concat chunks))))
   \<and> ((\<exists>j. parse_line P l n = StreamItem j (length (JSON_stringify P j)) n)
        \<or> (\<exists>msg. parse_line P l n = ErrorItem l n msg))
   \<and> (concat chunks = [] \<longrightarrow> ndjsonStream P chunks = [])
   \<and> ((\<forall>l \<in> set (split_nl (decode_text P (concat chunks))). \<not> truthy (trim l))
      \<longrightarrow> ndjsonStream P chunks = []
          \<and> lineNumber_var (snd (ndjsonStream_run P chunks))
              = length (filter (\<lambda>c. c = 10) (decode_text P (concat chunks))))"
proof (intro conjI impI)
  let ?ls = "split_nl (decode_text P (concat chunks))"
  show "buffer (snd (ndjsonStream_run P chunks)) = last ?ls"
    by (simp add: ndjsonStream_run_text)
  show "(\<exists>j. parse_line P l n = StreamItem j (length (JSON_stringify P j)) n)
        \<or> (\<exists>msg. parse_line P l n = ErrorItem l n msg)"
    by (rule parse_line_cases)
  {
    assume T: "truthy (trim (last ?ls))"
    then show "ndjsonStream P chunks =
        items_of_lines (parse_line P) (butlast ?ls) @ [parse_line P (last ?ls) (length ?ls)]"
      using items_of_lines_butlast [of ?ls "parse_line P"]
      by (simp add: ndjsonStream_text line_items_def)
    from T show "lineNumber_var (snd (ndjsonStream_run P chunks)) = length ?ls"
      using split_nl_not_Nil [of "decode_text P (concat chunks)"]
      by (cases ?ls) (simp_all add: ndjsonStream_run_text)
  }
  {
    assume "concat chunks = []"
    then have "decode_text P (concat chunks) = []"
      by (simp only: decode_text_def decode.simps fst_conv)
    then show "ndjsonStream P chunks = []"
      by (simp add: ndjsonStream_text items_of_lines_for_lines Let_def trim_def truthy_def)
  }
  {
    assume B: "\<forall>l \<in> set ?ls. \<not> truthy (trim l)"
    then show "ndjsonStream P chunks = []"
      by (simp add: ndjsonStream_text items_of_lines_for_lines for_lines_blank)
    from B have "\<not> truthy (trim (last ?ls))" by simp
    then show "lineNumber_var (snd (ndjsonStream_run P chunks))
        = length (filter (\<lambda>c. c = 10) (decode_text P (concat chunks)))"
      by (simp add: ndjsonStream_run_text length_split_nl)
  }
qed

theorem ndjsonStream_end_of_input_witness:
  "truthy (trim (last (split_nl (decode_text sample_platform (concat [bytes_of ''{}'' @ [10] @ bytes_of ''null''])))))
   \<and> ndjsonStream sample_platform [bytes_of ''{}'' @ [10] @ bytes_of ''null'']
       = [StreamItem (JObject []) 2 1, StreamItem JNull 4 2]
   \<and> lineNumber_var (snd (ndjsonStream_run sample_platform [bytes_of ''{}'' @ [10] @ bytes_of ''null''])) = 2
   \<and> concat ([] :: byte list list) = []
   \<and> ndjsonStream sample_platform [] = []
   \<and> split_nl (decode_text sample_platform (concat [[32, 10, 9], [10, 32]])) = [[32], [9], [32]]
   \<and> \<not> truthy (trim [32]) \<and> \<not> truthy (trim [9])
   \<and> ndjsonStream sample_platform [[32, 10, 9], [10, 32]] = []
   \<and> lineNumber_var (snd (ndjsonStream_run sample_platform [[32, 10, 9], [10, 32]])) = 2"
proof -
  have t1: "split_nl (decode_text sample_platform (concat [bytes_of ''{}'' @ [10] @ bytes_of ''null'']))
      = [js ''{}'', js ''null'']"
    by (simp add: decode_text_def sample_platform_def bytes_of_def js_def)
  have h1: "truthy (trim (last (split_nl (decode_text sample_platform (concat [bytes_of ''{}'' @ [10] @ bytes_of ''null''])))))"
    unfolding t1 by (simp add: js_def trim_def truthy_def is_whitespace_def)
  have t2: "decode_text sample_platform (concat [[32, 10, 9], [10, 32]]) = [32, 10, 9, 10, 32]"
    by (simp add: decode_text_def sample_platform_def)
  have h2: "\<forall>l \<in> set (split_nl (decode_text sample_platform (concat [[32, 10, 9], [10, 32]]))). \<not> truthy (trim l)"
    unfolding t2 by (simp add: trim_def truthy_def is_whitespace_def)
  have i1: "items_of_lines (parse_line sample_platform) (butlast [js ''{}'', js ''null''])
        @ [parse_line sample_platform (last [js ''{}'', js ''null'']) (length [js ''{}'', js ''null''])]
      = [StreamItem (JObject []) 2 1, StreamItem JNull 4 2]"
    by (simp add: items_of_lines_def line_items_def parse_line_def sample_platform_def
        sample_parse_def js_def trim_def truthy_def is_whitespace_def)
  note T = ndjsonStream_end_of_input [of sample_platform "[bytes_of ''{}'' @ [10] @ bytes_of ''null'']"]
  note E = ndjsonStream_end_of_input [of sample_platform "[]"]
  note W = ndjsonStream_end_of_input [of sample_platform "[[32, 10, 9], [10, 32]]"]
  have a: "ndjsonStream sample_platform [bytes_of ''{}'' @ [10] @ bytes_of ''null'']
       = [StreamItem (JObject []) 2 1, StreamItem JNull 4 2]"
    using T h1 i1 unfolding t1 by simp
  have b: "lineNumber_var (snd (ndjsonStream_run sample_platform [bytes_of ''{}'' @ [10] @ bytes_of ''null''])) = 2"
    using T h1 unfolding t1 by simp
  have c: "ndjsonStream sample_platform [] = []"
    using E by simp
  have d: "ndjsonStream sample_platform [[32, 10, 9], [10, 32]] = []
      \<and> lineNumber_var (snd (ndjsonStream_run sample_platform [[32, 10, 9], [10, 32]])) = 2"
    using W h2 unfolding t2 by simp
  have l2: "split_nl (decode_text sample_platform (concat [[32, 10, 9], [10, 32]])) = [[32], [9], [32]]"
    unfolding t2 by simp
  have w: "\<not> truthy (trim [32]) \<and> \<not> truthy (trim [9])"
    by (simp add: trim_def truthy_def is_whitespace_def)
  from h1 a b c l2 w d show ?thesis by simp
qed

section \<open>Properties of the response reconciliation\<close>

lemma at_index_valid:
  "0 \<le> i \<Longrightarrow> i < int (length xs) \<Longrightarrow> at_index xs i = Some (xs ! nat i)"
  by (simp add: at_index_def)

lemma at_index_invalid:
  "\<not> (0 \<le> i \<and> i < int (length xs)) \<Longrightarrow> at_index xs i = None"
  by (auto simp: at_index_def)

lemma handleBigQueryResponse_no_errors:
  "insertErrors r = None \<or> insertErrors r = Some [] \<Longrightarrow>
   handleBigQueryResponse r b = Inr ([], \<lparr>batchSuccessful = int (length b), batchFailed = 0\<rparr>)"
  by (auto simp: handleBigQueryResponse_def)

lemma handleBigQueryResponse_valid:
  assumes "insertErrors r = Some (e # es)" and "0 \<le> index e" and "index e < int (length b)"
  shows "handleBigQueryResponse r b =
           Inr ([PartialSuccess (int (length b) - int (length (e # es))) (length (e # es)),
                 FirstErrorAtLine (row_lineNumber (b ! nat (index e))) (first_message (errors e)),
                 ProblematicObject (row_json (b ! nat (index e)))],
                \<lparr>batchSuccessful = int (length b) - int (length (e # es)),
                 batchFailed = length (e # es)\<rparr>)"
  using assms by (simp add: handleBigQueryResponse_def at_index_valid Let_def)

lemma handleBigQueryResponse_invalid:
  assumes "insertErrors r = Some (e # es)" and "\<not> (0 \<le> index e \<and> index e < int (length b))"
  shows "handleBigQueryResponse r b = Inl TypeError"
  using assms by (simp add: handleBigQueryResponse_def at_index_invalid Let_def)

text \<open>
  Claim C3.  For a response whose first reported index, if there is one, is a position
  of the batch (the protocol's meaning of \<open>index\<close>; claim C10 is about the other
  responses), the reconciliation returns \<open>batch.length - count\<close> successes and \<open>count\<close>
  failures, where \<open>count\<close> is the length of the whole \<open>insertErrors\<close> list, and it reports
  the first error at the \<open>lineNumber\<close> of the batch member at that index, with its message
  and the member's value.
\<close>

theorem handleBigQueryResponse_counts:
  "(insertErrors r = Some es \<and> (es = [] \<or> (0 \<le> index (hd es) \<and> index (hd es) < int (length b)))
    \<longrightarrow> handleBigQueryResponse r b =
          Inr (if es = [] then []
               else [PartialSuccess (int (length b) - int (length es)) (length es),
                     FirstErrorAtLine (row_lineNumber (b ! nat (index (hd es))))
                       (first_message (errors (hd es))),
                     ProblematicObject (row_json (b ! nat (index (hd es))))],
               \<lparr>batchSuccessful = int (length b) - int (length es), batchFailed = length es\<rparr>))
   \<and> (insertErrors r = None
    \<longrightarrow> handleBigQueryResponse r b
          = Inr ([], \<lparr>batchSuccessful = int (length b), batchFailed = 0\<rparr>))"
proof (intro conjI impI)
  assume "insertErrors r = None"
  then show "handleBigQueryResponse r b = Inr ([], \<lparr>batchSuccessful = int (length b), batchFailed = 0\<rparr>)"
    by (simp add: handleBigQueryResponse_no_errors)
next
  assume A: "insertErrors r = Some es \<and> (es = [] \<or> (0 \<le> index (hd es) \<and> index (hd es) < int (length b)))"
  show "handleBigQueryResponse r b =
         Inr (if es = [] then []
              else [PartialSuccess (int (length b) - int (length es)) (length es),
                    FirstErrorAtLine (row_lineNumber (b ! nat (index (hd es))))
                      (first_message (errors (hd es))),
                    ProblematicObject (row_json (b ! nat (index (hd es))))],
              \<lparr>batchSuccessful = int (length b) - int (length es), batchFailed = length es\<rparr>)"
  proof (cases es)
    case Nil
    with A show ?thesis by (simp add: handleBigQueryResponse_no_errors)
  next
    case (Cons e es')
    with A handleBigQueryResponse_valid [of r e es' b] show ?thesis by simp
  qed
qed

theorem handleBigQueryResponse_counts_witness:
  "handleBigQueryResponse
     \<lparr>insertErrors = Some [\<lparr>index = 1, errors = [js ''x'']\<rparr>]\<rparr>
     [\<lparr>row_json = JNull, row_lineNumber = 10\<rparr>, \<lparr>row_json = JBool True, row_lineNumber = 11\<rparr>,
      \<lparr>row_json = JObject [], row_lineNumber = 12\<rparr>]
   = Inr ([PartialSuccess 2 1, FirstErrorAtLine 11 (js ''x''), ProblematicObject (JBool True)],
          \<lparr>batchSuccessful = 2, batchFailed = 1\<rparr>)
   \<and> handleBigQueryResponse \<lparr>insertErrors = None\<rparr> [\<lparr>row_json = JNull, row_lineNumber = 10\<rparr>]
     = Inr ([], \<lparr>batchSuccessful = 1, batchFailed = 0\<rparr>)"
  using handleBigQueryResponse_counts
    [of "\<lparr>insertErrors = None\<rparr>" "[]" "[\<lparr>row_json = JNull, row_lineNumber = 10\<rparr>]"]
    handleBigQueryResponse_counts
    [of "\<lparr>insertErrors = Some [\<lparr>index = 1, errors = [js ''x'']\<rparr>]\<rparr>"
        "[\<lparr>index = 1, errors = [js ''x'']\<rparr>]"
        "[\<lparr>row_json = JNull, row_lineNumber = 10\<rparr>, \<lparr>row_json = JBool True, row_lineNumber = 11\<rparr>,
          \<lparr>row_json = JObject [], row_lineNumber = 12\<rparr>]"]
  by (simp add: first_message_def truthy_def js_def)

lemma sendBatchToBigQuery_v1_insert_errors:
  assumes "ok (dest n (rows b))" and "body (dest n (rows b)) = Some r"
      and "insertErrors r = Some (e # es)"
  shows "sendBatchToBigQuery_v1 dest n b =
           Some (if 0 \<le> index e \<and> index e < int (length b)
                 then BigQueryInsertError (row_lineNumber (b ! nat (index e)))
                 else TypeError)"
  using assms by (simp add: sendBatchToBigQuery_v1_def at_index_def Let_def)

lemma sendBatchToBigQuery_js_v1: "sendBatchToBigQuery_js dest n b = sendBatchToBigQuery_v1 dest n b"
  by (simp add: sendBatchToBigQuery_js_def split: option.splits)

text \<open>
  Claim C10.  \<open>batch[firstError.index].lineNumber\<close> is read without a bounds check.
  With a first index inside the batch the reconciliation returns and reports the line of
  that member; with a first index outside (negative, or \<open>batch.length\<close> or more) it
  throws a TypeError and returns no counts; it throws in no other case.  Indices that are
  all inside the batch are therefore enough for it to return.  The two
  \<open>sendBatchToBigQuery\<close> that read the same expression throw the insert error with the
  member's line in the first case and the TypeError in the second.
\<close>

theorem first_index_unchecked:
  "(insertErrors r = Some (e # es) \<and> 0 \<le> index e \<and> index e < int (length b)
      \<longrightarrow> (\<exists>logs out. handleBigQueryResponse r b = Inr (logs, out)
            \<and> FirstErrorAtLine (row_lineNumber (b ! nat (index e))) (first_message (errors e))
                \<in> set logs))
   \<and> (insertErrors r = Some (e # es) \<and> \<not> (0 \<le> index e \<and> index e < int (length b))
      \<longrightarrow> handleBigQueryResponse r b = Inl TypeError)
   \<and> (handleBigQueryResponse r b = Inl err
      \<longrightarrow> err = TypeError
          \<and> (\<exists>e' es'. insertErrors r = Some (e' # es')
                \<and> \<not> (0 \<le> index e' \<and> index e' < int (length b))))
   \<and> (insertErrors r = Some es' \<and> (\<forall>x \<in> set es'. 0 \<le> index x \<and> index x < int (length b))
      \<longrightarrow> (\<exists>logs out. handleBigQueryResponse r b = Inr (logs, out)))
   \<and> (ok (dest n (rows b)) \<and> body (dest n (rows b)) = Some r \<and> insertErrors r = Some (e # es)
      \<longrightarrow> sendBatchToBigQuery_v1 dest n b =
            Some (if 0 \<le> index e \<and> index e < int (length b)
                  then BigQueryInsertError (row_lineNumber (b ! nat (index e)))
                  else TypeError)
          \<and> sendBatchToBigQuery_js dest n b = sendBatchToBigQuery_v1 dest n b)"
proof (intro conjI impI)
  assume "insertErrors r = Some (e # es) \<and> 0 \<le> index e \<and> index e < int (length b)"
  then show "\<exists>logs out. handleBigQueryResponse r b = Inr (logs, out)
      \<and> FirstErrorAtLine (row_lineNumber (b ! nat (index e))) (first_message (errors e)) \<in> set logs"
    using handleBigQueryResponse_valid [of r e es b] by simp
next
  assume "insertErrors r = Some (e # es) \<and> \<not> (0 \<le> index e \<and> index e < int (length b))"
  then show "handleBigQueryResponse r b = Inl TypeError"
    using handleBigQueryResponse_invalid [of r e es b] by blast
next
  assume E: "handleBigQueryResponse r b = Inl err"
  then show "err = TypeError"
    by (auto simp: handleBigQueryResponse_def Let_def split: if_splits option.splits)
  show "\<exists>e' es'. insertErrors r = Some (e' # es')
      \<and> \<not> (0 \<le> index e' \<and> index e' < int (length b))"
  proof (cases "insertErrors r")
    case None
    with E show ?thesis by (simp add: handleBigQueryResponse_no_errors)
  next
    case (Some xs)
    show ?thesis
    proof (cases xs)
      case Nil
      with Some E show ?thesis by (simp add: handleBigQueryResponse_no_errors)
    next
      case (Cons x xs')
      show ?thesis
      proof (cases "0 \<le> index x \<and> index x < int (length b)")
        case True
        with Some Cons E handleBigQueryResponse_valid [of r x xs' b] show ?thesis by simp
      next
        case False
        with Some Cons show ?thesis by blast
      qed
    qed
  qed
next
  assume A: "insertErrors r = Some es' \<and> (\<forall>x \<in> set es'. 0 \<le> index x \<and> index x < int (length b))"
  show "\<exists>logs out. handleBigQueryResponse r b = Inr (logs, out)"
  proof (cases es')
    case Nil
    with A show ?thesis by (simp add: handleBigQueryResponse_no_errors)
  next
    case (Cons x xs)
    with A handleBigQueryResponse_valid [of r x xs b] show ?thesis by simp
  qed
next
  assume "ok (dest n (rows b)) \<and> body (dest n (rows b)) = Some r \<and> insertErrors r = Some (e # es)"
  then show "sendBatchToBigQuery_v1 dest n b =
            Some (if 0 \<le> index e \<and> index e < int (length b)
                  then BigQueryInsertError (row_lineNumber (b ! nat (index e)))
                  else TypeError)"
    using sendBatchToBigQuery_v1_insert_errors [of dest n b r e es] by blast
next
  show "sendBatchToBigQuery_js dest n b = sendBatchToBigQuery_v1 dest n b"
    by (rule sendBatchToBigQuery_js_v1)
qed

theorem first_index_unchecked_witness:
  "handleBigQueryResponse \<lparr>insertErrors = Some [\<lparr>index = 0, errors = []\<rparr>]\<rparr>
     [\<lparr>row_json = JNull, row_lineNumber = 10\<rparr>]
     = Inr ([PartialSuccess 0 1, FirstErrorAtLine 10 (js ''Unknown error''), ProblematicObject JNull],
            \<lparr>batchSuccessful = 0, batchFailed = 1\<rparr>)
   \<and> handleBigQueryResponse \<lparr>insertErrors = Some [\<lparr>index = 1, errors = []\<rparr>]\<rparr>
       [\<lparr>row_json = JNull, row_lineNumber = 10\<rparr>] = Inl TypeError
   \<and> handleBigQueryResponse \<lparr>insertErrors = Some [\<lparr>index = - 1, errors = []\<rparr>]\<rparr>
       [\<lparr>row_json = JNull, row_lineNumber = 10\<rparr>] = Inl TypeError
   \<and> sendBatchToBigQuery_v1
       (\<lambda>n rs. \<lparr>ok = True, status = 200, body = Some \<lparr>insertErrors = Some [\<lparr>index = 1, errors = []\<rparr>]\<rparr>\<rparr>)
       0 [\<lparr>row_json = JNull, row_lineNumber = 10\<rparr>] = Some TypeError"
proof -
  have a: "handleBigQueryResponse \<lparr>insertErrors = Some [\<lparr>index = 0, errors = []\<rparr>]\<rparr>
     [\<lparr>row_json = JNull, row_lineNumber = 10\<rparr>]
     = Inr ([PartialSuccess 0 1, FirstErrorAtLine 10 (js ''Unknown error''), ProblematicObject JNull],
            \<lparr>batchSuccessful = 0, batchFailed = 1\<rparr>)"
    by (simp add: handleBigQueryResponse_def at_index_def first_message_def)
  have b: "handleBigQueryResponse \<lparr>insertErrors = Some [\<lparr>index = 1, errors = []\<rparr>]\<rparr>
       [\<lparr>row_json = JNull, row_lineNumber = 10\<rparr>] = Inl TypeError"
    using first_index_unchecked
      [of "\<lparr>insertErrors = Some [\<lparr>index = 1, errors = []\<rparr>]\<rparr>" "\<lparr>index = 1, errors = []\<rparr>" "[]"
          "[\<lparr>row_json = JNull, row_lineNumber = 10\<rparr>]"]
    by simp
  have c: "handleBigQueryResponse \<lparr>insertErrors = Some [\<lparr>index = - 1, errors = []\<rparr>]\<rparr>
       [\<lparr>row_json = JNull, row_lineNumber = 10\<rparr>] = Inl TypeError"
    using first_index_unchecked
      [of "\<lparr>insertErrors = Some [\<lparr>index = - 1, errors = []\<rparr>]\<rparr>" "\<lparr>index = - 1, errors = []\<rparr>" "[]"
          "[\<lparr>row_json = JNull, row_lineNumber = 10\<rparr>]"]
    by simp
  have d: "sendBatchToBigQuery_v1
       (\<lambda>n rs. \<lparr>ok = True, status = 200, body = Some \<lparr>insertErrors = Some [\<lparr>index = 1, errors = []\<rparr>]\<rparr>\<rparr>)
       0 [\<lparr>row_json = JNull, row_lineNumber = 10\<rparr>] = Some TypeError"
    using first_index_unchecked
      [where r = "\<lparr>insertErrors = Some [\<lparr>index = 1, errors = []\<rparr>]\<rparr>"
         and e = "\<lparr>index = 1, errors = []\<rparr>" and es = "[]"
         and b = "[\<lparr>row_json = JNull, row_lineNumber = 10\<rparr>]"
         and dest = "\<lambda>n rs. \<lparr>ok = True, status = 200, body = Some \<lparr>insertErrors = Some [\<lparr>index = 1, errors = []\<rparr>]\<rparr>\<rparr>"
         and n = 0]
    by simp
  from a b c d show ?thesis by blast
qed

section \<open>Properties of the worker.js decoder\<close>

text \<open>
  What \<open>streamNdjsonObjects\<close> does with a parsed object that has no member named
  \<open>hasOwnProperty\<close>: a missing \<open>generated_at\<close> is appended with the time of the clock and
  the size is that of the object with it; an object that has the property is yielded as
  parsed.
\<close>

lemma parse_line_js_object:
  assumes "JSON_parse P l = Inr (JObject props)"
      and "\<not> hasOwnProperty props (js ''hasOwnProperty'')"
  shows "parse_line_js P l n =
           (if hasOwnProperty props (js ''generated_at'')
            then StreamItem (JObject props) (length (JSON_stringify P (JObject props))) n
            else StreamItem (JObject (props @ [(js ''generated_at'', JString (toISOString P n))]))
                   (length (JSON_stringify P
                      (JObject (props @ [(js ''generated_at'', JString (toISOString P n))])))) n)"
  using assms by (simp add: parse_line_js_def add_generated_at_def)

lemma parse_line_js_shadowed:
  assumes "JSON_parse P l = Inr (JObject props)"
      and "hasOwnProperty props (js ''hasOwnProperty'')"
  shows "parse_line_js P l n = ErrorItem l n (TypeError_message P (JObject props))"
  using assms by (simp add: parse_line_js_def add_generated_at_def)

text \<open>
  Claim C9.  The line \<open>{"hasOwnProperty":null}\<close> parses to an object without
  \<open>generated_at\<close>, yet \<open>streamNdjsonObjects\<close> yields no record for it: the call
  \<open>json.hasOwnProperty('generated_at')\<close> finds the member, which is not a function, and
  the TypeError is caught as if the line were malformed.
\<close>

theorem streamNdjsonObjects_shadowed_hasOwnProperty:
  "JSON_parse sample_platform ([123, 34] @ js ''hasOwnProperty'' @ [34, 58] @ js ''null}'')
     = Inr (JObject [(js ''hasOwnProperty'', JNull)])
   \<and> streamNdjsonObjects sample_platform
       [[123, 34] @ bytes_of ''hasOwnProperty'' @ [34, 58] @ bytes_of ''null}'' @ [10]]
     = [ErrorItem ([123, 34] @ js ''hasOwnProperty'' @ [34, 58] @ js ''null}'') 1
          (js ''json.hasOwnProperty is not a function'')]"
proof -
  have p: "JSON_parse sample_platform ([123, 34] @ js ''hasOwnProperty'' @ [34, 58] @ js ''null}'')
     = Inr (JObject [(js ''hasOwnProperty'', JNull)])"
    by (simp add: sample_platform_def sample_parse_def js_def)
  have t: "decode_text sample_platform
        (concat [[123, 34] @ bytes_of ''hasOwnProperty'' @ [34, 58] @ bytes_of ''null}'' @ [10]])
      = [123, 34] @ js ''hasOwnProperty'' @ [34, 58] @ js ''null}'' @ [10]"
    by (simp add: decode_text_def sample_platform_def bytes_of_def js_def)
  have n: "10 \<notin> set ([123, 34] @ js ''hasOwnProperty'' @ [34, 58] @ js ''null}'')"
    by (simp add: js_def)
  have s: "split_nl ([123, 34] @ js ''hasOwnProperty'' @ [34, 58] @ js ''null}'' @ [10])
      = [[123, 34] @ js ''hasOwnProperty'' @ [34, 58] @ js ''null}'', []]"
    using split_nl_line [OF n, of "[]"] by simp
  have b: "truthy (trim ([123, 34] @ js ''hasOwnProperty'' @ [34, 58] @ js ''null}''))"
    by (simp add: js_def trim_def truthy_def is_whitespace_def)
  have h: "hasOwnProperty [(js ''hasOwnProperty'', JNull)] (js ''hasOwnProperty'')"
    by (simp add: hasOwnProperty_def)
  have e: "parse_line_js sample_platform ([123, 34] @ js ''hasOwnProperty'' @ [34, 58] @ js ''null}'') 1
      = ErrorItem ([123, 34] @ js ''hasOwnProperty'' @ [34, 58] @ js ''null}'') 1
          (js ''json.hasOwnProperty is not a function'')"
    using parse_line_js_shadowed [OF p h, of 1] by (simp add: sample_platform_def)
  have "streamNdjsonObjects sample_platform
       [[123, 34] @ bytes_of ''hasOwnProperty'' @ [34, 58] @ bytes_of ''null}'' @ [10]]
     = items_of_lines (parse_line_js sample_platform)
         [[123, 34] @ js ''hasOwnProperty'' @ [34, 58] @ js ''null}'', []]"
    unfolding streamNdjsonObjects_def decoder_run_text t s by simp
  also have "\<dots> = [parse_line_js sample_platform ([123, 34] @ js ''hasOwnProperty'' @ [34, 58] @ js ''null}'') 1]"
    using b by (simp add: items_of_lines_def line_items_def trim_def truthy_def)
  finally show ?thesis using p e by simp
qed

section \<open>Properties of the inserter\<close>

lemma dispatch_accepted:
  assumes "accepted dest (length (sent st)) (batch st)"
  shows "dispatch dest st =
           Inr (st\<lparr>sent := sent st @ [batch st],
                   successfulInserts := successfulInserts st + (int (length (batch st))
                     - int (reported_failures (dest (length (sent st)) (rows (batch st))))),
                   failedInserts := failedInserts st
                     + reported_failures (dest (length (sent st)) (rows (batch st)))\<rparr>)"
proof -
  let ?r = "dest (length (sent st)) (rows (batch st))"
  from assms obtain bd where ok: "ok ?r" and bd: "body ?r = Some bd"
    and ix: "insertErrors bd = None \<or> insertErrors bd = Some []
        \<or> (\<exists>e es. insertErrors bd = Some (e # es) \<and> 0 \<le> index e \<and> index e < int (length (batch st)))"
    by (auto simp: accepted_def Let_def split: option.splits list.splits)
  have S: "sendBatchToBigQuery dest (length (sent st)) (batch st) = Inr bd"
    using ok bd by (simp add: sendBatchToBigQuery_def)
  have R: "reported_failures ?r = (case insertErrors bd of None \<Rightarrow> 0 | Some es \<Rightarrow> length es)"
    using bd by (simp add: reported_failures_def)
  from ix have "\<exists>logs. handleBigQueryResponse bd (batch st) =
      Inr (logs, \<lparr>batchSuccessful = int (length (batch st)) - int (reported_failures ?r),
                  batchFailed = reported_failures ?r\<rparr>)"
  proof (elim disjE exE conjE)
    assume "insertErrors bd = None"
    then show ?thesis using R by (simp add: handleBigQueryResponse_no_errors)
  next
    assume "insertErrors bd = Some []"
    then show ?thesis using R by (simp add: handleBigQueryResponse_no_errors)
  next
    fix e es
    assume "insertErrors bd = Some (e # es)" "0 \<le> index e" "index e < int (length (batch st))"
    then show ?thesis using R handleBigQueryResponse_valid [of bd e es "batch st"] by simp
  qed
  then obtain logs where H: "handleBigQueryResponse bd (batch st) =
      Inr (logs, \<lparr>batchSuccessful = int (length (batch st)) - int (reported_failures ?r),
                  batchFailed = reported_failures ?r\<rparr>)" ..
  show ?thesis
    by (simp add: dispatch_def S H Let_def)
qed

lemma dispatch_rejected:
  assumes "\<not> accepted dest (length (sent st)) (batch st)"
  shows "\<exists>e. dispatch dest st = Inl (e, st\<lparr>sent := sent st @ [batch st]\<rparr>)
           \<and> (e = BigQueryApiError (status (dest (length (sent st)) (rows (batch st))))
                \<or> e = SyntaxError \<or> e = TypeError)"
proof -
  let ?r = "dest (length (sent st)) (rows (batch st))"
  show ?thesis
  proof (cases "ok ?r")
    case False
    then show ?thesis by (simp add: dispatch_def sendBatchToBigQuery_def Let_def)
  next
    case True
    show ?thesis
    proof (cases "body ?r")
      case None
      with True show ?thesis by (simp add: dispatch_def sendBatchToBigQuery_def Let_def)
    next
      case (Some bd)
      with True have S: "sendBatchToBigQuery dest (length (sent st)) (batch st) = Inr bd"
        by (simp add: sendBatchToBigQuery_def)
      from assms True Some obtain e es where
        "insertErrors bd = Some (e # es)" "\<not> (0 \<le> index e \<and> index e < int (length (batch st)))"
        by (auto simp: accepted_def Let_def split: option.splits list.splits)
      then have "handleBigQueryResponse bd (batch st) = Inl TypeError"
        by (rule handleBigQueryResponse_invalid)
      then show ?thesis by (simp add: dispatch_def S Let_def)
    qed
  qed
qed

lemma step_ErrorItem:
  "step P dest m (ErrorItem l n msg) st = Inr (st\<lparr>skippedRecords := skippedRecords st + 1\<rparr>)"
  by (simp add: step_def)

lemma step_append:
  assumes "\<not> (batchSizeBytes st + length (JSON_stringify P j) > m \<and> batch st \<noteq> [])"
  shows "step P dest m (StreamItem j b n) st =
           Inr (st\<lparr>totalBytes := totalBytes st + b, totalRecords := totalRecords st + 1,
                   batch := batch st @ [\<lparr>row_json = j, row_lineNumber = n\<rparr>],
                   batchSizeBytes := batchSizeBytes st + length (JSON_stringify P j)\<rparr>)"
  using assms by (auto simp: step_def Let_def)

lemma step_flush:
  assumes "batchSizeBytes st + length (JSON_stringify P j) > m" and "batch st \<noteq> []"
  shows "step P dest m (StreamItem j b n) st =
           (case dispatch dest (st\<lparr>totalBytes := totalBytes st + b, totalRecords := totalRecords st + 1\<rparr>) of
              Inl e \<Rightarrow> Inl e
            | Inr st2 \<Rightarrow>
                Inr (st2\<lparr>batch := [\<lparr>row_json = j, row_lineNumber = n\<rparr>],
                         batchSizeBytes := length (JSON_stringify P j)\<rparr>))"
  using assms by (auto simp: step_def Let_def split: sum.splits)

lemma run_batches_Nil:
  "run_batches P dest m [] st = (if batch st \<noteq> [] then dispatch dest st else Inr st)"
  by (simp add: run_batches_def)

lemma run_batches_Cons:
  "run_batches P dest m (it # its) st =
     (case step P dest m it st of Inl e \<Rightarrow> Inl e | Inr st' \<Rightarrow> run_batches P dest m its st')"
  by (simp add: run_batches_def split: sum.splits)

text \<open>
  When every request is accepted, the run posts the batches of the batcher, in order,
  and its totals are those of the responses.
\<close>

lemma run_batches_accepted:
  assumes "all_accepted dest (length (sent st)) (batcher m (records_of P items) (batch st) (batchSizeBytes st))"
  shows "\<exists>st'. run_batches P dest m items st = Inr st'
           \<and> sent st' = sent st @ batcher m (records_of P items) (batch st) (batchSizeBytes st)
           \<and> failedInserts st' = failedInserts st
               + row_failures dest (length (sent st))
                   (batcher m (records_of P items) (batch st) (batchSizeBytes st))
           \<and> skippedRecords st' = skippedRecords st + parse_failures items
           \<and> totalRecords st' = totalRecords st + length (records_of P items)"
  using assms
proof (induction items arbitrary: st)
  case Nil
  show ?case
  proof (cases "batch st = []")
    case True
    then show ?thesis by (simp add: run_batches_Nil)
  next
    case False
    with Nil have "accepted dest (length (sent st)) (batch st)" by simp
    from dispatch_accepted [OF this] False show ?thesis
      by (simp add: run_batches_Nil)
  qed
next
  case (Cons it its)
  show ?case
  proof (cases it)
    case (ErrorItem l n msg)
    let ?st1 = "st\<lparr>skippedRecords := skippedRecords st + 1\<rparr>"
    have "all_accepted dest (length (sent ?st1))
        (batcher m (records_of P its) (batch ?st1) (batchSizeBytes ?st1))"
      using Cons.prems ErrorItem by simp
    from Cons.IH [OF this] show ?thesis
      using ErrorItem by (simp add: run_batches_Cons step_ErrorItem)
  next
    case (StreamItem j b n)
    let ?sz = "length (JSON_stringify P j)"
    let ?r = "\<lparr>row_json = j, row_lineNumber = n\<rparr>"
    show ?thesis
    proof (cases "batchSizeBytes st + ?sz > m \<and> batch st \<noteq> []")
      case False
      let ?st1 = "st\<lparr>totalBytes := totalBytes st + b, totalRecords := totalRecords st + 1,
                   batch := batch st @ [?r], batchSizeBytes := batchSizeBytes st + ?sz\<rparr>"
      have B: "batcher m (records_of P (it # its)) (batch st) (batchSizeBytes st)
          = batcher m (records_of P its) (batch ?st1) (batchSizeBytes ?st1)"
        using False StreamItem by auto
      have "all_accepted dest (length (sent ?st1))
          (batcher m (records_of P its) (batch ?st1) (batchSizeBytes ?st1))"
        using Cons.prems unfolding B by simp
      from Cons.IH [OF this] show ?thesis
        unfolding B using StreamItem False
        by (simp add: run_batches_Cons step_append)
    next
      case True
      let ?st0 = "st\<lparr>totalBytes := totalBytes st + b, totalRecords := totalRecords st + 1\<rparr>"
      let ?k = "reported_failures (dest (length (sent st)) (rows (batch st)))"
      let ?st2 = "st\<lparr>totalBytes := totalBytes st + b, totalRecords := totalRecords st + 1,
                    sent := sent st @ [batch st],
                    successfulInserts := successfulInserts st + (int (length (batch st)) - int ?k),
                    failedInserts := failedInserts st + ?k,
                    batch := [?r], batchSizeBytes := ?sz\<rparr>"
      have B: "batcher m (records_of P (it # its)) (batch st) (batchSizeBytes st)
          = batch st # batcher m (records_of P its) [?r] ?sz"
        using True StreamItem by simp
      from Cons.prems have A0: "accepted dest (length (sent st)) (batch st)"
        and A1: "all_accepted dest (Suc (length (sent st))) (batcher m (records_of P its) [?r] ?sz)"
        unfolding B by simp_all
      have "accepted dest (length (sent ?st0)) (batch ?st0)" using A0 by simp
      from dispatch_accepted [OF this]
      have S: "step P dest m (StreamItem j b n) st = Inr ?st2"
        using True by (simp add: step_flush)
      have "all_accepted dest (length (sent ?st2))
          (batcher m (records_of P its) (batch ?st2) (batchSizeBytes ?st2))"
        using A1 by simp
      from Cons.IH [OF this] show ?thesis
        unfolding B using StreamItem
        by (simp add: run_batches_Cons S add.assoc)
    qed
  qed
qed

lemma posted_all_accepted: "all_accepted dest k bs \<Longrightarrow> posted dest k bs = bs"
  by (induction bs arbitrary: k) auto

text \<open>
  When some request is not accepted, the run ends there: the error of that request
  leaves \<open>insertIntoBq\<close> and no later batch is posted.
\<close>

lemma run_batches_rejected:
  assumes "\<not> all_accepted dest (length (sent st)) (batcher m (records_of P items) (batch st) (batchSizeBytes st))"
  shows "\<exists>e st'. run_batches P dest m items st = Inl (e, st')
           \<and> sent st' = sent st @ posted dest (length (sent st))
                (batcher m (records_of P items) (batch st) (batchSizeBytes st))
           \<and> ((\<exists>s. e = BigQueryApiError s) \<or> e = SyntaxError \<or> e = TypeError)"
  using assms
proof (induction items arbitrary: st)
  case Nil
  show ?case
  proof (cases "batch st = []")
    case True
    with Nil show ?thesis by simp
  next
    case False
    with Nil have "\<not> accepted dest (length (sent st)) (batch st)" by simp
    from dispatch_rejected [OF this] this False show ?thesis
      by (auto simp: run_batches_Nil)
  qed
next
  case (Cons it its)
  show ?case
  proof (cases it)
    case (ErrorItem l n msg)
    let ?st1 = "st\<lparr>skippedRecords := skippedRecords st + 1\<rparr>"
    have "\<not> all_accepted dest (length (sent ?st1))
        (batcher m (records_of P its) (batch ?st1) (batchSizeBytes ?st1))"
      using Cons.prems ErrorItem by simp
    from Cons.IH [OF this] show ?thesis
      using ErrorItem by (simp add: run_batches_Cons step_ErrorItem)
  next
    case (StreamItem j b n)
    let ?sz = "length (JSON_stringify P j)"
    let ?r = "\<lparr>row_json = j, row_lineNumber = n\<rparr>"
    show ?thesis
    proof (cases "batchSizeBytes st + ?sz > m \<and> batch st \<noteq> []")
      case False
      let ?st1 = "st\<lparr>totalBytes := totalBytes st + b, totalRecords := totalRecords st + 1,
                   batch := batch st @ [?r], batchSizeBytes := batchSizeBytes st + ?sz\<rparr>"
      have B: "batcher m (records_of P (it # its)) (batch st) (batchSizeBytes st)
          = batcher m (records_of P its) (batch ?st1) (batchSizeBytes ?st1)"
        using False StreamItem by auto
      have "\<not> all_accepted dest (length (sent ?st1))
          (batcher m (records_of P its) (batch ?st1) (batchSizeBytes ?st1))"
        using Cons.prems unfolding B by simp
      from Cons.IH [OF this] show ?thesis
        unfolding B using StreamItem False
        by (simp add: run_batches_Cons step_append)
    next
      case True
      let ?st0 = "st\<lparr>totalBytes := totalBytes st + b, totalRecords := totalRecords st + 1\<rparr>"
      have B: "batcher m (records_of P (it # its)) (batch st) (batchSizeBytes st)
          = batch st # batcher m (records_of P its) [?r] ?sz"
        using True StreamItem by simp
      show ?thesis
      proof (cases "accepted dest (length (sent st)) (batch st)")
        case False
        then have "\<not> accepted dest (length (sent ?st0)) (batch ?st0)" by simp
        from dispatch_rejected [OF this] obtain e where
          D: "dispatch dest ?st0 = Inl (e, ?st0\<lparr>sent := sent ?st0 @ [batch ?st0]\<rparr>)"
          and E: "(\<exists>s. e = BigQueryApiError s) \<or> e = SyntaxError \<or> e = TypeError"
          by blast
        have "step P dest m (StreamItem j b n) st = Inl (e, ?st0\<lparr>sent := sent ?st0 @ [batch ?st0]\<rparr>)"
          using True D by (simp add: step_flush)
        then show ?thesis
          unfolding B using StreamItem False E
          by (simp add: run_batches_Cons)
      next
        case A0: True
        let ?k = "reported_failures (dest (length (sent st)) (rows (batch st)))"
        let ?st2 = "st\<lparr>totalBytes := totalBytes st + b, totalRecords := totalRecords st + 1,
                      sent := sent st @ [batch st],
                      successfulInserts := successfulInserts st + (int (length (batch st)) - int ?k),
                      failedInserts := failedInserts st + ?k,
                      batch := [?r], batchSizeBytes := ?sz\<rparr>"
        from Cons.prems A0
        have A1: "\<not> all_accepted dest (Suc (length (sent st))) (batcher m (records_of P its) [?r] ?sz)"
          unfolding B by simp
        have "accepted dest (length (sent ?st0)) (batch ?st0)" using A0 by simp
        from dispatch_accepted [OF this]
        have S: "step P dest m (StreamItem j b n) st = Inr ?st2"
          using True by (simp add: step_flush)
        have "\<not> all_accepted dest (length (sent ?st2))
            (batcher m (records_of P its) (batch ?st2) (batchSizeBytes ?st2))"
          using A1 by simp
        from Cons.IH [OF this] show ?thesis
          unfolding B using StreamItem A0
          by (simp add: run_batches_Cons S)
      qed
    qed
  qed
qed

lemma insertIntoBq_with_run_batches:
  "insertIntoBq_with m P dest items =
     (case run_batches P dest m items initial_state of
        Inl e \<Rightarrow> Inl e
      | Inr st' \<Rightarrow>
          if failedInserts st' > 0 then Inl (FailedToInsert (failedInserts st'), st')
          else Inr st')"
  by (simp add: insertIntoBq_with_def run_batches_def split: sum.splits)

text \<open>The two cases of a whole run, in terms of its batches and their responses.\<close>

lemma insertIntoBq_with_accepted:
  assumes "all_accepted dest 0 (batches m P items)"
  shows "\<exists>st. insertIntoBq_with m P dest items =
             (if row_failures dest 0 (batches m P items) > 0
              then Inl (FailedToInsert (row_failures dest 0 (batches m P items)), st)
              else Inr st)
           \<and> sent st = batches m P items
           \<and> failedInserts st = row_failures dest 0 (batches m P items)
           \<and> skippedRecords st = parse_failures items
           \<and> totalRecords st = length (records_of P items)"
proof -
  have "all_accepted dest (length (sent initial_state))
      (batcher m (records_of P items) (batch initial_state) (batchSizeBytes initial_state))"
    using assms by (simp add: batches_def initial_state_def)
  from run_batches_accepted [OF this] obtain st' where
    "run_batches P dest m items initial_state = Inr st'"
    "sent st' = batches m P items"
    "failedInserts st' = row_failures dest 0 (batches m P items)"
    "skippedRecords st' = parse_failures items"
    "totalRecords st' = length (records_of P items)"
    by (auto simp: batches_def initial_state_def)
  then show ?thesis
    by (intro exI [of _ st']) (simp add: insertIntoBq_with_run_batches)
qed

lemma insertIntoBq_with_rejected:
  assumes "\<not> all_accepted dest 0 (batches m P items)"
  shows "\<exists>e st. insertIntoBq_with m P dest items = Inl (e, st)
           \<and> sent st = posted dest 0 (batches m P items)
           \<and> ((\<exists>s. e = BigQueryApiError s) \<or> e = SyntaxError \<or> e = TypeError)"
proof -
  have "\<not> all_accepted dest (length (sent initial_state))
      (batcher m (records_of P items) (batch initial_state) (batchSizeBytes initial_state))"
    using assms by (simp add: batches_def initial_state_def)
  from run_batches_rejected [OF this] obtain e st' where
    "run_batches P dest m items initial_state = Inl (e, st')"
    "sent st' = posted dest 0 (batches m P items)"
    "(\<exists>s. e = BigQueryApiError s) \<or> e = SyntaxError \<or> e = TypeError"
    by (auto simp: batches_def initial_state_def)
  then show ?thesis
    by (intro exI [of _ e] exI [of _ st']) (simp add: insertIntoBq_with_run_batches)
qed

lemma dispatch_v1_sent: "sent (dispatch_v1 dest st) = sent st @ [batch st]"
  by (simp add: dispatch_v1_def Let_def split: option.splits)

lemma dispatch_v1_errors:
  "errors_var (dispatch_v1 dest st) =
     errors_var st @ (case sendBatchToBigQuery_v1 dest (length (sent st)) (batch st) of
                        None \<Rightarrow> [] | Some e \<Rightarrow> [e])"
  by (simp add: dispatch_v1_def Let_def split: option.splits)

lemma dispatch_v1_other:
  "batch (dispatch_v1 dest st) = batch st"
  "batchSizeBytes (dispatch_v1 dest st) = batchSizeBytes st"
  by (simp_all add: dispatch_v1_def Let_def split: option.splits)

lemma run_batches_v1_Nil:
  "run_batches_v1 P dest m [] st = (if batch st \<noteq> [] then dispatch_v1 dest st else st)"
  by (simp add: run_batches_v1_def)

lemma run_batches_v1_Cons:
  "run_batches_v1 P dest m (it # its) st = run_batches_v1 P dest m its (step_v1 P dest m it st)"
  by (simp add: run_batches_v1_def)

lemma step_v1_ErrorItem: "step_v1 P dest m (ErrorItem l n msg) st = st"
  by (simp add: step_v1_def)

lemma step_v1_append:
  assumes "\<not> (batchSizeBytes st + length (JSON_stringify P j) > m \<and> batch st \<noteq> [])"
  shows "sent (step_v1 P dest m (StreamItem j b n) st) = sent st"
    and "errors_var (step_v1 P dest m (StreamItem j b n) st) = errors_var st"
    and "batch (step_v1 P dest m (StreamItem j b n) st) = batch st @ [\<lparr>row_json = j, row_lineNumber = n\<rparr>]"
    and "batchSizeBytes (step_v1 P dest m (StreamItem j b n) st)
           = batchSizeBytes st + length (JSON_stringify P j)"
  using assms by (auto simp: step_v1_def Let_def)

lemma step_v1_flush:
  assumes "batchSizeBytes st + length (JSON_stringify P j) > m" and "batch st \<noteq> []"
  shows "sent (step_v1 P dest m (StreamItem j b n) st) = sent st @ [batch st]"
    and "errors_var (step_v1 P dest m (StreamItem j b n) st) =
           errors_var st @ (case sendBatchToBigQuery_v1 dest (length (sent st)) (batch st) of
                              None \<Rightarrow> [] | Some e \<Rightarrow> [e])"
    and "batch (step_v1 P dest m (StreamItem j b n) st) = [\<lparr>row_json = j, row_lineNumber = n\<rparr>]"
    and "batchSizeBytes (step_v1 P dest m (StreamItem j b n) st) = length (JSON_stringify P j)"
  using assms by (simp_all add: step_v1_def Let_def dispatch_v1_sent dispatch_v1_errors)

text \<open>
  The error-list version posts every batch of the batcher, whatever the responses, and
  collects one error for each request that throws.
\<close>

lemma run_batches_v1_sent:
  "sent (run_batches_v1 P dest m items st)
     = sent st @ batcher m (records_of P items) (batch st) (batchSizeBytes st)
   \<and> errors_var (run_batches_v1 P dest m items st)
     = errors_var st @ batch_errors dest (length (sent st))
         (batcher m (records_of P items) (batch st) (batchSizeBytes st))"
proof (induction items arbitrary: st)
  case Nil
  show ?case
    by (simp add: run_batches_v1_Nil dispatch_v1_sent dispatch_v1_errors split: option.splits)
next
  case (Cons it its)
  show ?case
  proof (cases it)
    case (ErrorItem l n msg)
    with Cons.IH [of st] show ?thesis
      by (simp add: run_batches_v1_Cons step_v1_ErrorItem)
  next
    case (StreamItem j b n)
    let ?sz = "length (JSON_stringify P j)"
    let ?st1 = "step_v1 P dest m (StreamItem j b n) st"
    show ?thesis
    proof (cases "batchSizeBytes st + ?sz > m \<and> batch st \<noteq> []")
      case False
      note F = step_v1_append [OF False, of dest b n]
      have B: "batcher m (records_of P (it # its)) (batch st) (batchSizeBytes st)
          = batcher m (records_of P its) (batch st @ [\<lparr>row_json = j, row_lineNumber = n\<rparr>])
              (batchSizeBytes st + ?sz)"
        using False StreamItem by auto
      show ?thesis
        unfolding B using Cons.IH [of ?st1] StreamItem
        by (simp add: run_batches_v1_Cons F)
    next
      case True
      then have T1: "batchSizeBytes st + ?sz > m" and T2: "batch st \<noteq> []" by simp_all
      note F = step_v1_flush [OF T1 T2, of dest b n]
      have B: "batcher m (records_of P (it # its)) (batch st) (batchSizeBytes st)
          = batch st # batcher m (records_of P its) [\<lparr>row_json = j, row_lineNumber = n\<rparr>] ?sz"
        using True StreamItem by simp
      show ?thesis
        unfolding B using Cons.IH [of ?st1] StreamItem
        by (simp add: run_batches_v1_Cons F split: option.splits)
    qed
  qed
qed

lemma insertIntoBq_v1_with_run_batches:
  "insertIntoBq_v1_with m P dest items =
     (if errors_var (run_batches_v1 P dest m items initial_state_v1) \<noteq> []
      then Inl (InsertionErrors (length (errors_var (run_batches_v1 P dest m items initial_state_v1))),
                run_batches_v1 P dest m items initial_state_v1)
      else Inr (run_batches_v1 P dest m items initial_state_v1))"
  by (simp add: insertIntoBq_v1_with_def run_batches_v1_def Let_def)

lemma insertIntoBq_v1_with_result:
  "insertIntoBq_v1_with m P dest items =
     (if batch_errors dest 0 (batches m P items) \<noteq> []
      then Inl (InsertionErrors (length (batch_errors dest 0 (batches m P items))),
                run_batches_v1 P dest m items initial_state_v1)
      else Inr (run_batches_v1 P dest m items initial_state_v1))
   \<and> sent (run_batches_v1 P dest m items initial_state_v1) = batches m P items
   \<and> errors_var (run_batches_v1 P dest m items initial_state_v1)
       = batch_errors dest 0 (batches m P items)"
  using run_batches_v1_sent [of P dest m items initial_state_v1]
  by (simp add: insertIntoBq_v1_with_run_batches batches_def initial_state_v1_def)

text \<open>Properties of the batcher.\<close>

lemma concat_batcher: "concat (batcher m rs acc tot) = acc @ map fst rs"
  by (induction m rs acc tot rule: batcher.induct) auto

lemma batcher_no_empty: "[] \<notin> set (batcher m rs acc tot)"
  by (induction m rs acc tot rule: batcher.induct) auto

lemma batcher_over: "tot > m \<Longrightarrow> acc \<noteq> [] \<Longrightarrow> acc \<in> set (batcher m rs acc tot)"
  by (cases rs) auto

lemma batcher_oversize_alone:
  "(r, sz) \<in> set rs \<Longrightarrow> sz > m \<Longrightarrow> [r] \<in> set (batcher m rs acc tot)"
proof (induction m rs acc tot rule: batcher.induct)
  case (1 m acc tot)
  then show ?case by simp
next
  case (2 m r' sz' rs acc tot)
  show ?case
  proof (cases "(r, sz) = (r', sz')")
    case True
    show ?thesis
    proof (cases "tot + sz' > m \<and> acc \<noteq> []")
      case T: True
      have "[r] \<in> set (batcher m rs [r] sz)"
        using "2.prems" by (intro batcher_over) simp_all
      with True T show ?thesis by simp
    next
      case False
      with True "2.prems" have A: "acc = []" by auto
      have "[r] \<in> set (batcher m rs [r] (tot + sz))"
        using "2.prems" by (intro batcher_over) simp_all
      with True False A show ?thesis by simp
    qed
  next
    case False
    with "2.prems" have "(r, sz) \<in> set rs" by auto
    with "2.IH" "2.prems" show ?thesis by auto
  qed
qed

lemma for_items_no_records:
  "records_of P items = [] \<Longrightarrow>
   for_items P dest m items st = Inr (st\<lparr>skippedRecords := skippedRecords st + parse_failures items\<rparr>)"
proof (induction items arbitrary: st)
  case Nil
  show ?case by simp
next
  case (Cons it its)
  then show ?case
    by (cases it) (simp_all add: step_ErrorItem)
qed

lemma insertIntoBq_with_no_records:
  assumes "records_of P items = []"
  shows "insertIntoBq_with m P dest items = Inr (initial_state\<lparr>skippedRecords := parse_failures items\<rparr>)"
  using for_items_no_records [OF assms, of dest m initial_state]
  by (simp add: insertIntoBq_with_def initial_state_def)

lemma size_big_string: "length (JSON_stringify sample_platform big_string) = 1048578"
  by (simp add: sample_platform_def big_string_def)

lemma size_string100: "length (JSON_stringify sample_platform string100) = 100"
  by (simp add: sample_platform_def string100_def)

lemma accepted_dest_ok: "accepted dest_ok k b"
  by (simp add: accepted_def dest_ok_def)

lemma not_accepted_dest_500: "\<not> accepted dest_500 k b"
  by (simp add: accepted_def dest_500_def)

text \<open>
  Claim C1, as the specification states it, fails on a stream whose only line is
  malformed: one parse failure, and both versions of \<open>insertIntoBq\<close> return normally.
\<close>

theorem malformed_only_run_returns:
  "ndjsonStream sample_platform [bytes_of ''oops'' @ [10]]
     = [ErrorItem (js ''oops'') 1 (js ''Unexpected token'')]
   \<and> insertIntoBq sample_platform dest_ok [ErrorItem (js ''oops'') 1 (js ''Unexpected token'')]
     = Inr (initial_state\<lparr>skippedRecords := 1\<rparr>)
   \<and> insertIntoBq_v1 sample_platform dest_ok [ErrorItem (js ''oops'') 1 (js ''Unexpected token'')]
     = Inr initial_state_v1"
proof -
  have a: "ndjsonStream sample_platform [bytes_of ''oops'' @ [10]]
     = [ErrorItem (js ''oops'') 1 (js ''Unexpected token'')]"
    by (simp add: ndjsonStream_def ndjsonStream_run_def decoder_run_def sample_platform_def
        bytes_of_def js_def trim_def truthy_def is_whitespace_def parse_line_def sample_parse_def
        pop_or_empty_def Let_def)
  have b: "insertIntoBq sample_platform dest_ok [ErrorItem (js ''oops'') 1 (js ''Unexpected token'')]
     = Inr (initial_state\<lparr>skippedRecords := 1\<rparr>)"
    by (simp add: insertIntoBq_def insertIntoBq_with_no_records)
  have c: "insertIntoBq_v1 sample_platform dest_ok [ErrorItem (js ''oops'') 1 (js ''Unexpected token'')]
     = Inr initial_state_v1"
    by (simp add: insertIntoBq_v1_def insertIntoBq_v1_with_def step_v1_def initial_state_v1_def)
  from a b c show ?thesis by blast
qed

text \<open>
  Claim C1, amended.  A run of the per-row-count \<open>insertIntoBq\<close> throws its terminal
  error (\<open>Failed to insert n records\<close>) exactly when every request of the run was accepted
  and \<open>n\<close>, the number of \<open>insertErrors\<close> entries reported over all its batches, is
  greater than zero; with no reported entry it returns, every batch posted.  Parse
  failures are counted in \<open>skippedRecords\<close> and do not make the run throw: a stream
  without a record returns normally, whatever the number of malformed lines.  The
  error-list version throws its terminal error exactly when some request threw.
\<close>

theorem insertIntoBq_terminal_error:
  "((\<exists>st. insertIntoBq P dest items = Inl (FailedToInsert n, st))
      \<longleftrightarrow> all_accepted dest 0 (batches maxBatchSizeBytes P items)
          \<and> n = row_failures dest 0 (batches maxBatchSizeBytes P items) \<and> 0 < n)
   \<and> (all_accepted dest 0 (batches maxBatchSizeBytes P items)
        \<and> row_failures dest 0 (batches maxBatchSizeBytes P items) = 0
      \<longrightarrow> (\<exists>st. insertIntoBq P dest items = Inr st
            \<and> sent st = batches maxBatchSizeBytes P items
            \<and> skippedRecords st = parse_failures items))
   \<and> (records_of P items = []
      \<longrightarrow> insertIntoBq P dest items = Inr (initial_state\<lparr>skippedRecords := parse_failures items\<rparr>))
   \<and> ((\<exists>st. insertIntoBq_v1 P dest items = Inl (InsertionErrors n, st))
      \<longleftrightarrow> n = length (batch_errors dest 0 (batches maxBatchSizeBytes P items)) \<and> 0 < n)"
proof (intro conjI impI)
  let ?B = "batches maxBatchSizeBytes P items"
  show "(\<exists>st. insertIntoBq P dest items = Inl (FailedToInsert n, st))
      \<longleftrightarrow> all_accepted dest 0 ?B \<and> n = row_failures dest 0 ?B \<and> 0 < n"
  proof (cases "all_accepted dest 0 ?B")
    case True
    from insertIntoBq_with_accepted [OF True] show ?thesis
      by (auto simp: insertIntoBq_def True split: if_splits)
  next
    case False
    from insertIntoBq_with_rejected [OF False] show ?thesis
      by (auto simp: insertIntoBq_def False)
  qed
  {
    assume "all_accepted dest 0 ?B \<and> row_failures dest 0 ?B = 0"
    then show "\<exists>st. insertIntoBq P dest items = Inr st \<and> sent st = ?B
        \<and> skippedRecords st = parse_failures items"
      using insertIntoBq_with_accepted [of dest maxBatchSizeBytes P items]
      by (auto simp: insertIntoBq_def)
  }
  {
    assume "records_of P items = []"
    then show "insertIntoBq P dest items = Inr (initial_state\<lparr>skippedRecords := parse_failures items\<rparr>)"
      by (simp add: insertIntoBq_def insertIntoBq_with_no_records)
  }
  show "(\<exists>st. insertIntoBq_v1 P dest items = Inl (InsertionErrors n, st))
      \<longleftrightarrow> n = length (batch_errors dest 0 ?B) \<and> 0 < n"
    using insertIntoBq_v1_with_result [of maxBatchSizeBytes P dest items]
    by (auto simp: insertIntoBq_v1_def)
qed

theorem insertIntoBq_terminal_error_witness:
  "all_accepted dest_first_row_fails 0
     (batches maxBatchSizeBytes sample_platform
        [StreamItem JNull 4 1, ErrorItem (js ''oops'') 2 (js ''Unexpected token'')])
   \<and> row_failures dest_first_row_fails 0
       (batches maxBatchSizeBytes sample_platform
          [StreamItem JNull 4 1, ErrorItem (js ''oops'') 2 (js ''Unexpected token'')]) = 1
   \<and> (\<exists>st. insertIntoBq sample_platform dest_first_row_fails
          [StreamItem JNull 4 1, ErrorItem (js ''oops'') 2 (js ''Unexpected token'')]
        = Inl (FailedToInsert 1, st))
   \<and> records_of sample_platform [ErrorItem (js ''oops'') 1 (js ''Unexpected token'')] = []
   \<and> insertIntoBq sample_platform dest_first_row_fails [ErrorItem (js ''oops'') 1 (js ''Unexpected token'')]
       = Inr (initial_state\<lparr>skippedRecords := 1\<rparr>)
   \<and> all_accepted dest_ok 0
       (batches maxBatchSizeBytes sample_platform
          [StreamItem JNull 4 1, ErrorItem (js ''oops'') 2 (js ''Unexpected token'')])
   \<and> row_failures dest_ok 0
       (batches maxBatchSizeBytes sample_platform
          [StreamItem JNull 4 1, ErrorItem (js ''oops'') 2 (js ''Unexpected token'')]) = 0
   \<and> (\<exists>st. insertIntoBq sample_platform dest_ok
          [StreamItem JNull 4 1, ErrorItem (js ''oops'') 2 (js ''Unexpected token'')] = Inr st
        \<and> sent st = [[\<lparr>row_json = JNull, row_lineNumber = 1\<rparr>]]
        \<and> skippedRecords st = 1)"
proof -
  let ?items = "[StreamItem JNull 4 1, ErrorItem (js ''oops'') 2 (js ''Unexpected token'')]"
  have B: "batches maxBatchSizeBytes sample_platform ?items = [[\<lparr>row_json = JNull, row_lineNumber = 1\<rparr>]]"
    by (simp add: batches_def)
  have a: "all_accepted dest_first_row_fails 0 (batches maxBatchSizeBytes sample_platform ?items)"
    unfolding B by (simp add: accepted_def dest_first_row_fails_def)
  have r: "row_failures dest_first_row_fails 0 (batches maxBatchSizeBytes sample_platform ?items) = 1"
    unfolding B by (simp add: reported_failures_def dest_first_row_fails_def)
  have t: "\<exists>st. insertIntoBq sample_platform dest_first_row_fails ?items = Inl (FailedToInsert 1, st)"
    using insertIntoBq_terminal_error [of sample_platform dest_first_row_fails ?items 1] a r
    by simp
  have n: "records_of sample_platform [ErrorItem (js ''oops'') 1 (js ''Unexpected token'')] = []"
    by simp
  have m: "insertIntoBq sample_platform dest_first_row_fails [ErrorItem (js ''oops'') 1 (js ''Unexpected token'')]
       = Inr (initial_state\<lparr>skippedRecords := 1\<rparr>)"
    using insertIntoBq_terminal_error
      [of sample_platform dest_first_row_fails "[ErrorItem (js ''oops'') 1 (js ''Unexpected token'')]" 1] n
    by simp
  have a': "all_accepted dest_ok 0 (batches maxBatchSizeBytes sample_platform ?items)"
    unfolding B by (simp add: accepted_dest_ok)
  have r': "row_failures dest_ok 0 (batches maxBatchSizeBytes sample_platform ?items) = 0"
    unfolding B by (simp add: reported_failures_def dest_ok_def)
  have k: "\<exists>st. insertIntoBq sample_platform dest_ok ?items = Inr st
        \<and> sent st = [[\<lparr>row_json = JNull, row_lineNumber = 1\<rparr>]] \<and> skippedRecords st = 1"
    using insertIntoBq_terminal_error [of sample_platform dest_ok ?items 0] a' r'
    unfolding B by simp
  from a r t n m a' r' k show ?thesis by blast
qed

text \<open>
  Claim C2, as the specification states it, fails on the per-row-count version: two
  records that need a batch each, and a destination that answers 500.  The first batch is
  posted when the second record arrives; its error leaves \<open>insertIntoBq\<close>, nothing is
  added to the failed count and the second batch is never posted.
\<close>

theorem transport_error_stops_run:
  "batches maxBatchSizeBytes sample_platform
     [StreamItem big_string 1048578 1, StreamItem big_string 1048578 2]
     = [[\<lparr>row_json = big_string, row_lineNumber = 1\<rparr>], [\<lparr>row_json = big_string, row_lineNumber = 2\<rparr>]]
   \<and> insertIntoBq sample_platform dest_500
       [StreamItem big_string 1048578 1, StreamItem big_string 1048578 2]
     = Inl (BigQueryApiError 500,
            \<lparr>batch = [\<lparr>row_json = big_string, row_lineNumber = 1\<rparr>], batchSizeBytes = 1048578,
             totalBytes = 2097156, totalRecords = 2,
             sent = [[\<lparr>row_json = big_string, row_lineNumber = 1\<rparr>]],
             successfulInserts = 0, failedInserts = 0, skippedRecords = 0\<rparr>)"
proof -
  have a: "batches maxBatchSizeBytes sample_platform
     [StreamItem big_string 1048578 1, StreamItem big_string 1048578 2]
     = [[\<lparr>row_json = big_string, row_lineNumber = 1\<rparr>], [\<lparr>row_json = big_string, row_lineNumber = 2\<rparr>]]"
    by (simp add: batches_def size_big_string maxBatchSizeBytes_def)
  have b: "insertIntoBq sample_platform dest_500
       [StreamItem big_string 1048578 1, StreamItem big_string 1048578 2]
     = Inl (BigQueryApiError 500,
            \<lparr>batch = [\<lparr>row_json = big_string, row_lineNumber = 1\<rparr>], batchSizeBytes = 1048578,
             totalBytes = 2097156, totalRecords = 2,
             sent = [[\<lparr>row_json = big_string, row_lineNumber = 1\<rparr>]],
             successfulInserts = 0, failedInserts = 0, skippedRecords = 0\<rparr>)"
    by (simp add: insertIntoBq_def insertIntoBq_with_def step_def dispatch_def
        sendBatchToBigQuery_def dest_500_def initial_state_def size_big_string
        maxBatchSizeBytes_def Let_def)
  from a b show ?thesis by blast
qed

lemma not_ok_not_accepted: "\<not> ok (dest k (rows b)) \<Longrightarrow> \<not> accepted dest k b"
  by (simp add: accepted_def Let_def)

lemma not_ok_throws:
  "\<not> ok (dest k (rows b)) \<Longrightarrow>
   sendBatchToBigQuery dest k b = Inl (BigQueryApiError (status (dest k (rows b))))"
  by (simp add: sendBatchToBigQuery_def Let_def)

lemma not_ok_throws_v1: "\<not> ok (dest k (rows b)) \<Longrightarrow> sendBatchToBigQuery_v1 dest k b \<noteq> None"
  by (simp add: sendBatchToBigQuery_v1_def Let_def split: option.splits)

lemma final_state_insertIntoBq_v1_with:
  "final_state (insertIntoBq_v1_with m P dest items) = run_batches_v1 P dest m items initial_state_v1"
  by (simp add: insertIntoBq_v1_with_run_batches final_state_def)

text \<open>
  Claim C2, amended.  A request that gets a non-success status is not accepted and
  throws in every version.  In the per-row-count version the error leaves
  \<open>insertIntoBq\<close>: the run ends with the error of the first request that is not
  accepted, having posted the batches up to that one and no other.  In the error-list
  version the error is caught and appended to the list, one entry for the batch; every
  batch of the batcher is posted whatever the responses, and one terminal error with the
  number of requests that threw is raised after the last batch.
\<close>

theorem transport_failure_policy:
  "(\<not> ok (dest k (rows b))
      \<longrightarrow> \<not> accepted dest k b
          \<and> sendBatchToBigQuery dest k b = Inl (BigQueryApiError (status (dest k (rows b))))
          \<and> sendBatchToBigQuery_v1 dest k b \<noteq> None)
   \<and> (\<not> all_accepted dest 0 (batches maxBatchSizeBytes P items)
      \<longrightarrow> (\<exists>e st. insertIntoBq P dest items = Inl (e, st)
            \<and> sent st = posted dest 0 (batches maxBatchSizeBytes P items)
            \<and> ((\<exists>s. e = BigQueryApiError s) \<or> e = SyntaxError \<or> e = TypeError)))
   \<and> sent (final_state (insertIntoBq_v1 P dest items)) = batches maxBatchSizeBytes P items
   \<and> errors_var (final_state (insertIntoBq_v1 P dest items))
       = batch_errors dest 0 (batches maxBatchSizeBytes P items)
   \<and> thrown (insertIntoBq_v1 P dest items)
       = (if batch_errors dest 0 (batches maxBatchSizeBytes P items) = [] then None
          else Some (InsertionErrors (length (batch_errors dest 0 (batches maxBatchSizeBytes P items)))))"
proof (intro conjI impI)
  let ?B = "batches maxBatchSizeBytes P items"
  note V = insertIntoBq_v1_with_result [of maxBatchSizeBytes P dest items]
  {
    assume N: "\<not> ok (dest k (rows b))"
    then show "\<not> accepted dest k b" by (rule not_ok_not_accepted)
    from N show "sendBatchToBigQuery dest k b = Inl (BigQueryApiError (status (dest k (rows b))))"
      by (rule not_ok_throws)
    from N show "sendBatchToBigQuery_v1 dest k b \<noteq> None" by (rule not_ok_throws_v1)
  }
  {
    assume "\<not> all_accepted dest 0 ?B"
    from insertIntoBq_with_rejected [OF this]
    show "\<exists>e st. insertIntoBq P dest items = Inl (e, st) \<and> sent st = posted dest 0 ?B
        \<and> ((\<exists>s. e = BigQueryApiError s) \<or> e = SyntaxError \<or> e = TypeError)"
      by (simp add: insertIntoBq_def)
  }
  have F: "final_state (insertIntoBq_v1 P dest items)
      = run_batches_v1 P dest maxBatchSizeBytes items initial_state_v1"
    by (simp add: insertIntoBq_v1_def final_state_insertIntoBq_v1_with)
  show "sent (final_state (insertIntoBq_v1 P dest items)) = ?B"
    unfolding F using V by blast
  show "errors_var (final_state (insertIntoBq_v1 P dest items)) = batch_errors dest 0 ?B"
    unfolding F using V by blast
  show "thrown (insertIntoBq_v1 P dest items)
       = (if batch_errors dest 0 ?B = [] then None
          else Some (InsertionErrors (length (batch_errors dest 0 ?B))))"
    using V by (simp add: insertIntoBq_v1_def thrown_def)
qed

theorem transport_failure_policy_witness:
  "\<not> ok (dest_500 0 (rows [\<lparr>row_json = string100, row_lineNumber = 1\<rparr>]))
   \<and> sendBatchToBigQuery dest_500 0 [\<lparr>row_json = string100, row_lineNumber = 1\<rparr>]
       = Inl (BigQueryApiError 500)
   \<and> \<not> all_accepted dest_500 0
         (batches maxBatchSizeBytes sample_platform
            [StreamItem big_string 1048578 1, StreamItem big_string 1048578 2])
   \<and> (\<exists>e st. insertIntoBq sample_platform dest_500
                [StreamItem big_string 1048578 1, StreamItem big_string 1048578 2] = Inl (e, st)
        \<and> sent st = [[\<lparr>row_json = big_string, row_lineNumber = 1\<rparr>]])
   \<and> sent (final_state (insertIntoBq_v1 sample_platform dest_500
                [StreamItem big_string 1048578 1, StreamItem big_string 1048578 2]))
       = [[\<lparr>row_json = big_string, row_lineNumber = 1\<rparr>], [\<lparr>row_json = big_string, row_lineNumber = 2\<rparr>]]
   \<and> thrown (insertIntoBq_v1 sample_platform dest_500
                [StreamItem big_string 1048578 1, StreamItem big_string 1048578 2])
       = Some (InsertionErrors 2)"
proof -
  let ?items = "[StreamItem big_string 1048578 1, StreamItem big_string 1048578 2]"
  let ?B = "[[\<lparr>row_json = big_string, row_lineNumber = 1\<rparr>], [\<lparr>row_json = big_string, row_lineNumber = 2\<rparr>]]"
  note T = transport_failure_policy
    [of dest_500 0 "[\<lparr>row_json = string100, row_lineNumber = 1\<rparr>]" sample_platform ?items]
  have B: "batches maxBatchSizeBytes sample_platform ?items = ?B"
    by (simp add: batches_def size_big_string maxBatchSizeBytes_def)
  have n: "\<not> ok (dest_500 0 (rows [\<lparr>row_json = string100, row_lineNumber = 1\<rparr>]))"
    by (simp add: dest_500_def)
  have s: "status (dest_500 0 (rows [\<lparr>row_json = string100, row_lineNumber = 1\<rparr>])) = 500"
    by (simp add: dest_500_def)
  have a: "\<not> all_accepted dest_500 0 (batches maxBatchSizeBytes sample_platform ?items)"
    unfolding B by (simp add: not_accepted_dest_500)
  have p: "posted dest_500 0 ?B = [[\<lparr>row_json = big_string, row_lineNumber = 1\<rparr>]]"
    by (simp add: not_accepted_dest_500)
  have e: "batch_errors dest_500 0 ?B = [BigQueryApiError 500, BigQueryApiError 500]"
    by (simp add: sendBatchToBigQuery_v1_def dest_500_def)
  have c1: "sendBatchToBigQuery dest_500 0 [\<lparr>row_json = string100, row_lineNumber = 1\<rparr>]
       = Inl (BigQueryApiError 500)"
    using T n s by simp
  have c2: "\<exists>e st. insertIntoBq sample_platform dest_500 ?items = Inl (e, st)
        \<and> sent st = [[\<lparr>row_json = big_string, row_lineNumber = 1\<rparr>]]"
    using T a unfolding B p by blast
  have c3: "sent (final_state (insertIntoBq_v1 sample_platform dest_500 ?items)) = ?B"
    using T unfolding B by blast
  have c4: "thrown (insertIntoBq_v1 sample_platform dest_500 ?items) = Some (InsertionErrors 2)"
    using T unfolding B e by simp
  from n c1 a c2 c3 c4 show ?thesis by blast
qed

lemma step_flush_sent:
  assumes "batchSizeBytes st + length (JSON_stringify P j) > m" and "batch st \<noteq> []"
  shows "sent (final_state (step P dest m (StreamItem j b n) st)) = sent st @ [batch st]"
proof -
  let ?st0 = "st\<lparr>totalBytes := totalBytes st + b, totalRecords := totalRecords st + 1\<rparr>"
  show ?thesis
  proof (cases "accepted dest (length (sent st)) (batch st)")
    case True
    then have "accepted dest (length (sent ?st0)) (batch ?st0)" by simp
    from dispatch_accepted [OF this] assms show ?thesis
      by (simp add: step_flush final_state_def)
  next
    case False
    then have "\<not> accepted dest (length (sent ?st0)) (batch ?st0)" by simp
    from dispatch_rejected [OF this] obtain e where
      "dispatch dest ?st0 = Inl (e, ?st0\<lparr>sent := sent ?st0 @ [batch ?st0]\<rparr>)"
      by blast
    with assms show ?thesis
      by (simp add: step_flush final_state_def)
  qed
qed

lemma step_flush_batch:
  assumes "batchSizeBytes st + length (JSON_stringify P j) > m" and "batch st \<noteq> []"
      and "step P dest m (StreamItem j b n) st = Inr st'"
  shows "batch st' = [\<lparr>row_json = j, row_lineNumber = n\<rparr>]
       \<and> batchSizeBytes st' = length (JSON_stringify P j)"
  using assms by (auto simp: step_flush split: sum.splits)

lemma batches_example:
  assumes "length (JSON_stringify P j1) = 100" and "length (JSON_stringify P j2) = 100"
      and "length (JSON_stringify P j3) = 100"
  shows "batches 250 P [StreamItem j1 b1 n1, StreamItem j2 b2 n2, StreamItem j3 b3 n3]
       = [[\<lparr>row_json = j1, row_lineNumber = n1\<rparr>, \<lparr>row_json = j2, row_lineNumber = n2\<rparr>],
          [\<lparr>row_json = j3, row_lineNumber = n3\<rparr>]]"
  using assms by (simp add: batches_def)

text \<open>
  Claim C5.  On a record, the loop posts the accumulating batch exactly when the
  running size plus the record's serialised size is above the threshold and the batch is
  not empty, and the record then starts the next batch; otherwise nothing is posted and
  the record is appended.  Over a whole run in which every request is accepted (and over
  every run of the error-list version) the batches posted are those of the batcher of the
  specification: no batch is empty, together they are the records in order (so what is
  left at the end is posted), and a record larger than the threshold is a batch by
  itself.  Three records of size 100 with threshold 250 give \<open>[rec1, rec2]\<close> and
  \<open>[rec3]\<close>.  The threshold of the source is 1,048,576.
\<close>

theorem batcher_flush_rule:
  "(batchSizeBytes st + length (JSON_stringify P j) > m \<and> batch st \<noteq> []
      \<longrightarrow> sent (final_state (step P dest m (StreamItem j b n) st)) = sent st @ [batch st]
          \<and> (\<forall>st'. step P dest m (StreamItem j b n) st = Inr st'
                \<longrightarrow> batch st' = [\<lparr>row_json = j, row_lineNumber = n\<rparr>]
                    \<and> batchSizeBytes st' = length (JSON_stringify P j)))
   \<and> (\<not> (batchSizeBytes st + length (JSON_stringify P j) > m \<and> batch st \<noteq> [])
      \<longrightarrow> (\<exists>st'. step P dest m (StreamItem j b n) st = Inr st'
            \<and> sent st' = sent st
            \<and> batch st' = batch st @ [\<lparr>row_json = j, row_lineNumber = n\<rparr>]
            \<and> batchSizeBytes st' = batchSizeBytes st + length (JSON_stringify P j)))
   \<and> (all_accepted dest 0 (batches m P items)
      \<longrightarrow> sent (final_state (insertIntoBq_with m P dest items)) = batches m P items)
   \<and> sent (final_state (insertIntoBq_v1_with m P dest items)) = batches m P items
   \<and> concat (batches m P items) = map fst (records_of P items)
   \<and> [] \<notin> set (batches m P items)
   \<and> ((r, sz) \<in> set (records_of P items) \<and> sz > m \<longrightarrow> [r] \<in> set (batches m P items))
   \<and> (length (JSON_stringify P j1) = 100 \<and> length (JSON_stringify P j2) = 100
        \<and> length (JSON_stringify P j3) = 100
      \<longrightarrow> batches 250 P [StreamItem j1 b1 n1, StreamItem j2 b2 n2, StreamItem j3 b3 n3]
          = [[\<lparr>row_json = j1, row_lineNumber = n1\<rparr>, \<lparr>row_json = j2, row_lineNumber = n2\<rparr>],
             [\<lparr>row_json = j3, row_lineNumber = n3\<rparr>]])
   \<and> insertIntoBq P dest items = insertIntoBq_with 1048576 P dest items"
proof (intro conjI impI allI)
  {
    assume A: "batchSizeBytes st + length (JSON_stringify P j) > m \<and> batch st \<noteq> []"
    then show "sent (final_state (step P dest m (StreamItem j b n) st)) = sent st @ [batch st]"
      by (simp add: step_flush_sent)
    fix st' assume "step P dest m (StreamItem j b n) st = Inr st'"
    with A step_flush_batch [of m st P j dest b n st']
    show "batch st' = [\<lparr>row_json = j, row_lineNumber = n\<rparr>]"
      and "batchSizeBytes st' = length (JSON_stringify P j)"
      by simp_all
  }
  {
    assume "\<not> (batchSizeBytes st + length (JSON_stringify P j) > m \<and> batch st \<noteq> [])"
    from step_append [OF this, of dest b n]
    show "\<exists>st'. step P dest m (StreamItem j b n) st = Inr st'
            \<and> sent st' = sent st
            \<and> batch st' = batch st @ [\<lparr>row_json = j, row_lineNumber = n\<rparr>]
            \<and> batchSizeBytes st' = batchSizeBytes st + length (JSON_stringify P j)"
      by simp
  }
  {
    assume "all_accepted dest 0 (batches m P items)"
    from insertIntoBq_with_accepted [OF this]
    show "sent (final_state (insertIntoBq_with m P dest items)) = batches m P items"
      by (auto simp: final_state_def split: if_splits)
  }
  show "sent (final_state (insertIntoBq_v1_with m P dest items)) = batches m P items"
    unfolding final_state_insertIntoBq_v1_with
    using insertIntoBq_v1_with_result [of m P dest items] by blast
  show "concat (batches m P items) = map fst (records_of P items)"
    by (simp add: batches_def concat_batcher)
  show "[] \<notin> set (batches m P items)"
    by (simp add: batches_def batcher_no_empty)
  {
    assume "(r, sz) \<in> set (records_of P items) \<and> sz > m"
    then have "(r, sz) \<in> set (records_of P items)" and "sz > m" by simp_all
    then show "[r] \<in> set (batches m P items)"
      unfolding batches_def by (rule batcher_oversize_alone)
  }
  {
    assume "length (JSON_stringify P j1) = 100 \<and> length (JSON_stringify P j2) = 100
        \<and> length (JSON_stringify P j3) = 100"
    then show "batches 250 P [StreamItem j1 b1 n1, StreamItem j2 b2 n2, StreamItem j3 b3 n3]
          = [[\<lparr>row_json = j1, row_lineNumber = n1\<rparr>, \<lparr>row_json = j2, row_lineNumber = n2\<rparr>],
             [\<lparr>row_json = j3, row_lineNumber = n3\<rparr>]]"
      by (simp add: batches_example)
  }
  show "insertIntoBq P dest items = insertIntoBq_with 1048576 P dest items"
    by (simp add: insertIntoBq_def maxBatchSizeBytes_def)
qed

theorem batcher_flush_rule_witness:
  "length (JSON_stringify sample_platform string100) = 100
   \<and> batches 250 sample_platform
       [StreamItem string100 100 1, StreamItem string100 100 2, StreamItem string100 100 3]
     = [[\<lparr>row_json = string100, row_lineNumber = 1\<rparr>, \<lparr>row_json = string100, row_lineNumber = 2\<rparr>],
        [\<lparr>row_json = string100, row_lineNumber = 3\<rparr>]]
   \<and> all_accepted dest_ok 0 (batches 250 sample_platform
       [StreamItem string100 100 1, StreamItem string100 100 2, StreamItem string100 100 3])
   \<and> sent (final_state (insertIntoBq_with 250 sample_platform dest_ok
       [StreamItem string100 100 1, StreamItem string100 100 2, StreamItem string100 100 3]))
     = [[\<lparr>row_json = string100, row_lineNumber = 1\<rparr>, \<lparr>row_json = string100, row_lineNumber = 2\<rparr>],
        [\<lparr>row_json = string100, row_lineNumber = 3\<rparr>]]
   \<and> (\<lparr>row_json = big_string, row_lineNumber = 2\<rparr>, 1048578)
       \<in> set (records_of sample_platform
           [StreamItem JNull 4 1, StreamItem big_string 1048578 2, StreamItem JNull 4 3])
   \<and> [\<lparr>row_json = big_string, row_lineNumber = 2\<rparr>]
       \<in> set (batches 1048576 sample_platform
           [StreamItem JNull 4 1, StreamItem big_string 1048578 2, StreamItem JNull 4 3])
   \<and> sent (final_state (step sample_platform dest_ok 250 (StreamItem string100 100 3)
        (initial_state\<lparr>batch := [\<lparr>row_json = string100, row_lineNumber = 1\<rparr>,
                                  \<lparr>row_json = string100, row_lineNumber = 2\<rparr>],
                        batchSizeBytes := 200\<rparr>)))
     = [[\<lparr>row_json = string100, row_lineNumber = 1\<rparr>, \<lparr>row_json = string100, row_lineNumber = 2\<rparr>]]
   \<and> (\<exists>st'. step sample_platform dest_ok 250 (StreamItem string100 100 2)
          (initial_state\<lparr>batch := [\<lparr>row_json = string100, row_lineNumber = 1\<rparr>],
                          batchSizeBytes := 100\<rparr>) = Inr st'
        \<and> sent st' = []
        \<and> batch st' = [\<lparr>row_json = string100, row_lineNumber = 1\<rparr>,
                        \<lparr>row_json = string100, row_lineNumber = 2\<rparr>]
        \<and> batchSizeBytes st' = 200)"
proof -
  let ?items = "[StreamItem string100 100 1, StreamItem string100 100 2, StreamItem string100 100 3]"
  let ?big = "[StreamItem JNull 4 1, StreamItem big_string 1048578 2, StreamItem JNull 4 3]"
  note T = batcher_flush_rule
    [where P = sample_platform and m = 250 and dest = dest_ok and items = ?items
       and ?j1.0 = string100 and ?j2.0 = string100 and ?j3.0 = string100
       and ?b1.0 = 100 and ?b2.0 = 100 and ?b3.0 = 100 and ?n1.0 = 1 and ?n2.0 = 2 and ?n3.0 = 3]
  note U = batcher_flush_rule
    [where P = sample_platform and m = 1048576 and items = ?big
       and r = "\<lparr>row_json = big_string, row_lineNumber = 2\<rparr>" and sz = 1048578]
  have a: "length (JSON_stringify sample_platform string100) = 100"
    by (rule size_string100)
  have b: "batches 250 sample_platform ?items
     = [[\<lparr>row_json = string100, row_lineNumber = 1\<rparr>, \<lparr>row_json = string100, row_lineNumber = 2\<rparr>],
        [\<lparr>row_json = string100, row_lineNumber = 3\<rparr>]]"
    using T a by blast
  have c: "all_accepted dest_ok 0 (batches 250 sample_platform ?items)"
    unfolding b by (simp add: accepted_dest_ok)
  have d: "sent (final_state (insertIntoBq_with 250 sample_platform dest_ok ?items))
     = [[\<lparr>row_json = string100, row_lineNumber = 1\<rparr>, \<lparr>row_json = string100, row_lineNumber = 2\<rparr>],
        [\<lparr>row_json = string100, row_lineNumber = 3\<rparr>]]"
    using T c unfolding b by blast
  have e: "(\<lparr>row_json = big_string, row_lineNumber = 2\<rparr>, 1048578) \<in> set (records_of sample_platform ?big)"
    by (simp add: size_big_string)
  have f: "[\<lparr>row_json = big_string, row_lineNumber = 2\<rparr>] \<in> set (batches 1048576 sample_platform ?big)"
    using U e by simp
  have g: "sent (final_state (step sample_platform dest_ok 250 (StreamItem string100 100 3)
        (initial_state\<lparr>batch := [\<lparr>row_json = string100, row_lineNumber = 1\<rparr>,
                                  \<lparr>row_json = string100, row_lineNumber = 2\<rparr>],
                        batchSizeBytes := 200\<rparr>)))
     = [[\<lparr>row_json = string100, row_lineNumber = 1\<rparr>, \<lparr>row_json = string100, row_lineNumber = 2\<rparr>]]"
    using batcher_flush_rule
      [where P = sample_platform and m = 250 and dest = dest_ok and j = string100 and b = 100
         and n = 3
         and st = "initial_state\<lparr>batch := [\<lparr>row_json = string100, row_lineNumber = 1\<rparr>,
                                             \<lparr>row_json = string100, row_lineNumber = 2\<rparr>],
                                   batchSizeBytes := 200\<rparr>"]
    by (simp add: size_string100 initial_state_def)
  have h: "\<exists>st'. step sample_platform dest_ok 250 (StreamItem string100 100 2)
          (initial_state\<lparr>batch := [\<lparr>row_json = string100, row_lineNumber = 1\<rparr>],
                          batchSizeBytes := 100\<rparr>) = Inr st'
        \<and> sent st' = []
        \<and> batch st' = [\<lparr>row_json = string100, row_lineNumber = 1\<rparr>,
                        \<lparr>row_json = string100, row_lineNumber = 2\<rparr>]
        \<and> batchSizeBytes st' = 200"
    using batcher_flush_rule
      [where P = sample_platform and m = 250 and dest = dest_ok and j = string100 and b = 100
         and n = 2
         and st = "initial_state\<lparr>batch := [\<lparr>row_json = string100, row_lineNumber = 1\<rparr>],
                                   batchSizeBytes := 100\<rparr>"]
    by (simp add: size_string100 initial_state_def)
  from a b c d e f g h show ?thesis by blast
qed

section \<open>Properties of the queue trigger\<close>

lemma started_queue_loop_v1: "started (queue_loop_v1 run i ks) = to_process i ks"
  by (induction ks arbitrary: i) (auto split: option.splits)

lemma queue_loop_started:
  "started (fst (queue_loop run i ks)) = until_first_failure run (to_process i ks)
   \<and> snd (queue_loop run i ks) = first_failure run (to_process i ks)"
  by (induction ks arbitrary: i) (simp_all add: split_beta split: option.splits)

lemma until_first_failure_all:
  "first_failure run xs = None \<Longrightarrow> until_first_failure run xs = xs"
  by (induction run xs rule: until_first_failure.induct) (auto split: option.splits)

text \<open>
  Claim C8, as the specification states it, fails on the per-row-count version: two
  events whose objects are missing.  The run of the first fails, the handler logs and
  rethrows, and no run is started for the second.
\<close>

theorem queue_stops_at_first_failure:
  "queue sample_platform empty_bucket (\<lambda>i. dest_ok) [js ''a.json.gz'', js ''b.json.gz'']
     = ([RunStarted 0 (js ''a.json.gz''), ErrorLogged 0 (ObjectNotFound (js ''a.json.gz''))],
        Some (ObjectNotFound (js ''a.json.gz'')))"
  by (simp add: queue_def run_key_def processR2Object_def empty_bucket_def js_def)

text \<open>
  Claim C8, amended.  In the queue handlers of the error-list worker.ts and of
  worker.js a failing run is logged and the loop goes on: a run is started for every
  message whose key does not begin with \<open>__temporary\<close>, whatever the earlier runs did.
  In the queue handler of the per-row-count worker.ts the \<open>catch\<close> rethrows: runs are
  started up to and including the first one that fails, the handler throws the error of
  that run, and the later messages are not attempted; when no run fails, a run is started
  for every message to process.
\<close>

theorem queue_isolation:
  "started (queue_v1 P r2 dests msgs) = to_process 0 msgs
   \<and> started (queue_js P r2 dests msgs) = to_process 0 msgs
   \<and> started (fst (queue P r2 dests msgs))
       = until_first_failure (run_key P r2 dests) (to_process 0 msgs)
   \<and> snd (queue P r2 dests msgs) = first_failure (run_key P r2 dests) (to_process 0 msgs)
   \<and> (snd (queue P r2 dests msgs) = None
      \<longrightarrow> started (fst (queue P r2 dests msgs)) = to_process 0 msgs)"
proof (intro conjI impI)
  show "started (queue_v1 P r2 dests msgs) = to_process 0 msgs"
    by (simp add: queue_v1_def started_queue_loop_v1)
  show "started (queue_js P r2 dests msgs) = to_process 0 msgs"
    by (simp add: queue_js_def started_queue_loop_v1)
  show S: "started (fst (queue P r2 dests msgs))
       = until_first_failure (run_key P r2 dests) (to_process 0 msgs)"
    by (simp add: queue_def queue_loop_started)
  show F: "snd (queue P r2 dests msgs) = first_failure (run_key P r2 dests) (to_process 0 msgs)"
    by (simp add: queue_def queue_loop_started)
  assume "snd (queue P r2 dests msgs) = None"
  with F have "first_failure (run_key P r2 dests) (to_process 0 msgs) = None" by simp
  then show "started (fst (queue P r2 dests msgs)) = to_process 0 msgs"
    unfolding S by (rule until_first_failure_all)
qed

theorem queue_isolation_witness:
  "started (queue_v1 sample_platform empty_bucket (\<lambda>i. dest_ok)
       [js ''a.json.gz'', js ''__temporary/x'', js ''b.json.gz''])
     = [(0, js ''a.json.gz''), (2, js ''b.json.gz'')]
   \<and> started (queue_js sample_platform empty_bucket (\<lambda>i. dest_ok)
       [js ''a.json.gz'', js ''__temporary/x'', js ''b.json.gz''])
     = [(0, js ''a.json.gz''), (2, js ''b.json.gz'')]
   \<and> started (fst (queue sample_platform empty_bucket (\<lambda>i. dest_ok)
       [js ''a.json.gz'', js ''__temporary/x'', js ''b.json.gz'']))
     = [(0, js ''a.json.gz'')]
   \<and> snd (queue sample_platform empty_bucket (\<lambda>i. dest_ok) [js ''__temporary/x'']) = None
   \<and> started (fst (queue sample_platform empty_bucket (\<lambda>i. dest_ok) [js ''__temporary/x''])) = []"
proof -
  let ?msgs = "[js ''a.json.gz'', js ''__temporary/x'', js ''b.json.gz'']"
  note T = queue_isolation [of sample_platform empty_bucket "\<lambda>i. dest_ok" ?msgs]
  note U = queue_isolation [of sample_platform empty_bucket "\<lambda>i. dest_ok" "[js ''__temporary/x'']"]
  have p: "to_process 0 ?msgs = [(0, js ''a.json.gz''), (2, js ''b.json.gz'')]"
    by (simp add: js_def)
  have q: "to_process 0 [js ''__temporary/x''] = []"
    by (simp add: js_def)
  have r: "run_key sample_platform empty_bucket (\<lambda>i. dest_ok) 0 (js ''a.json.gz'')
      = Some (ObjectNotFound (js ''a.json.gz''))"
    by (simp add: run_key_def processR2Object_def empty_bucket_def)
  have a: "started (queue_v1 sample_platform empty_bucket (\<lambda>i. dest_ok) ?msgs)
     = [(0, js ''a.json.gz''), (2, js ''b.json.gz'')]"
    using T unfolding p by blast
  have b: "started (queue_js sample_platform empty_bucket (\<lambda>i. dest_ok) ?msgs)
     = [(0, js ''a.json.gz''), (2, js ''b.json.gz'')]"
    using T unfolding p by blast
  have c: "started (fst (queue sample_platform empty_bucket (\<lambda>i. dest_ok) ?msgs))
     = [(0, js ''a.json.gz'')]"
    using T r unfolding p by simp
  have d: "snd (queue sample_platform empty_bucket (\<lambda>i. dest_ok) [js ''__temporary/x'']) = None"
    using U unfolding q by simp
  have e: "started (fst (queue sample_platform empty_bucket (\<lambda>i. dest_ok) [js ''__temporary/x''])) = []"
    using U d unfolding q by simp
  from a b c d e show ?thesis by blast
qed

end
